theory Spec2Isabelle
  imports Complex_Main
begin

section \<open>Data model of \<open>psd1/parking_space.py\<close>\<close>

text \<open>
  Conventions of the embedding.
  \<^item> A Python \<open>datetime\<close> (naive, microsecond resolution) is the number of microseconds
    since 0001-01-01T00:00:00, an \<open>int\<close>; \<open>timedelta.total_seconds()\<close> divides the
    difference in microseconds by \<open>10^6\<close>.
  \<^item> A Python \<open>float\<close> is the real number it denotes; rounding of the few divisions the
    code performs is not modelled, comparisons and \<open>max\<close> are exact.
  \<^item> Every \<open>raise\<close> is a value \<open>Inl e\<close> of the result type \<open>error + 'a\<close>.
  \<^item> \<open>datetime.now()\<close> reads a clock \<open>clk :: nat \<Rightarrow> datetime\<close>; the number of readings
    taken so far is threaded through the functions that call it.
  \<^item> Bounding boxes, centroids and polygon points are tuples of Python \<open>int\<close>, as the
    signatures annotate them. Arithmetic on them is exact, and memory is unbounded: the
    \<open>int32\<close> range matters where an array is built from them.
\<close>

type_synonym datetime = int

type_synonym clock = "nat \<Rightarrow> datetime"

type_synonym point = "int \<times> int"

type_synonym bbox = "int \<times> int \<times> int \<times> int"

datatype error =
    FileNotFoundError
  | OSError
  | UnicodeDecodeError
  | JSONDecodeError
  | AttributeError
  | TypeError
  | KeyError
  | IndexError
  | ValueError
  | OverflowError
  | OutOfBoundsTimedelta
  | StopIteration
  | Cv2Error

subsection \<open>The library functions the code calls\<close>

text \<open>
  \<open>cv2.contourArea\<close>, \<open>cv2.pointPolygonTest\<close> and \<open>cv2.fillPoly\<close> belong to an external
  library. They are parameters of the model; each may raise. A mask is the predicate
  "the pixel at (row, column) is non-zero"; \<open>fillPoly cv rows cols poly\<close> is the mask that
  \<open>cv2.fillPoly(mask, [poly], 255)\<close> leaves in a fresh \<open>np.zeros((rows, cols))\<close> array.

  One function of NumPy is a parameter too: \<open>int32_overflow\<close> is what
  \<open>np.array(..., dtype=np.int32)\<close> does with an integer outside the \<open>int32\<close> range.
  NumPy 2 raises \<open>OverflowError\<close>, older releases wrap the value around. An integer
  inside the range is stored as it is.
\<close>

type_synonym mask = "nat \<Rightarrow> nat \<Rightarrow> bool"

record library =
  contourArea :: "point list \<Rightarrow> error + real"
  pointPolygonTest :: "point list \<Rightarrow> real \<times> real \<Rightarrow> error + real"
  fillPoly :: "nat \<Rightarrow> nat \<Rightarrow> point list \<Rightarrow> error + mask"
  int32_overflow :: "int \<Rightarrow> error + int"

definition in_int32 :: "int \<Rightarrow> bool" where
  "in_int32 v = (- 2147483648 \<le> v \<and> v \<le> 2147483647)"

text \<open>One entry of an \<open>int32\<close> array built from a Python \<open>int\<close>.\<close>

definition np_int32 :: "library \<Rightarrow> int \<Rightarrow> error + int" where
  "np_int32 lib v = (if in_int32 v then Inr v else int32_overflow lib v)"

text \<open>\<open>np.array(points, dtype=np.int32)\<close> for a list of pairs: the entries are converted
  in order, and the first conversion that raises ends the call.\<close>

fun np_array_int32 :: "library \<Rightarrow> point list \<Rightarrow> error + point list" where
  "np_array_int32 lib [] = Inr []"
| "np_array_int32 lib ((x, y) # pts) =
     (case np_int32 lib x of
        Inl e \<Rightarrow> Inl e
      | Inr x' \<Rightarrow>
          (case np_int32 lib y of
             Inl e \<Rightarrow> Inl e
           | Inr y' \<Rightarrow>
               (case np_array_int32 lib pts of
                  Inl e \<Rightarrow> Inl e
                | Inr arr \<Rightarrow> Inr ((x', y') # arr))))"

subsection \<open>The class \<open>ParkingSpace\<close>\<close>

datatype SpaceState = EMPTY | OCCUPIED | UNKNOWN

fun state_value :: "SpaceState \<Rightarrow> string" where
  "state_value EMPTY = ''empty''"
| "state_value OCCUPIED = ''occupied''"
| "state_value UNKNOWN = ''unknown''"

text \<open>
  The constructor stores \<open>space_id\<close> and \<open>min_occupancy_ratio\<close> as they are passed, of
  whatever type; the record leaves both types open. The methods are modelled at the
  annotated types, \<open>int\<close> and \<open>float\<close>: the type \<open>ParkingSpace\<close>.
\<close>

record ('i, 'r) ParkingSpace_object =
  space_id :: 'i
  polygon :: "point list"
  min_occupancy_ratio :: 'r
  state :: SpaceState
  previous_state :: SpaceState
  state_history :: "(datetime \<times> SpaceState) list"
  last_change_time :: "datetime option"
  occupancy_duration :: real
  vehicle_count :: nat
  confidence_smoothing :: "real list"
  smoothing_window :: nat

type_synonym ParkingSpace = "(int, real) ParkingSpace_object"

text \<open>\<open>ParkingSpace.__init__\<close> (lines 23-43): \<open>init_ParkingSpace\<close> is the object with the
  polygon array \<open>arr\<close>, \<open>new_ParkingSpace\<close> the constructor call, which builds that array
  from the list of points first (line 34).\<close>

definition init_ParkingSpace :: "'i \<Rightarrow> point list \<Rightarrow> 'r \<Rightarrow> ('i, 'r) ParkingSpace_object" where
  "init_ParkingSpace sid arr ratio =
     \<lparr> space_id = sid, polygon = arr, min_occupancy_ratio = ratio,
       state = UNKNOWN, previous_state = UNKNOWN, state_history = [],
       last_change_time = None, occupancy_duration = 0, vehicle_count = 0,
       confidence_smoothing = [], smoothing_window = 5 \<rparr>"

definition new_ParkingSpace ::
  "library \<Rightarrow> 'i \<Rightarrow> point list \<Rightarrow> 'r \<Rightarrow> error + ('i, 'r) ParkingSpace_object" where
  "new_ParkingSpace lib sid poly ratio =
     (case np_array_int32 lib poly of
        Inl e \<Rightarrow> Inl e
      | Inr arr \<Rightarrow> Inr (init_ParkingSpace sid arr ratio))"

definition total_seconds :: "int \<Rightarrow> real" where
  "total_seconds micros = real_of_int micros / 1000000"

text \<open>\<open>ParkingSpace.update_state\<close> (lines 147-172). The result is the mutated object and
  the advanced clock counter.\<close>

definition update_state ::
  "clock \<Rightarrow> nat \<Rightarrow> ParkingSpace \<Rightarrow> bool \<Rightarrow> datetime option \<Rightarrow> ParkingSpace \<times> nat" where
  "update_state clk k s is_occupied timestamp_arg =
     (let (timestamp, k1) =
            (case timestamp_arg of None \<Rightarrow> (clk k, Suc k) | Some t \<Rightarrow> (t, k));
          new_state = (if is_occupied then OCCUPIED else EMPTY);
          s1 = s\<lparr>previous_state := state s\<rparr>;
          s2 = s1\<lparr>state := new_state\<rparr>
      in if previous_state s2 \<noteq> state s2 \<and> previous_state s2 \<noteq> UNKNOWN then
           (let s3 = s2\<lparr>last_change_time := Some timestamp\<rparr>;
                s4 = s3\<lparr>state_history := state_history s3 @ [(timestamp, state s3)]\<rparr>
            in if state s4 = EMPTY \<and> previous_state s4 = OCCUPIED then
                 (if length (state_history s4) \<ge> 2 then
                    (let (prev_timestamp, _) =
                           state_history s4 ! (length (state_history s4) - 2);
                         duration = total_seconds (timestamp - prev_timestamp)
                     in (s4\<lparr>occupancy_duration := duration\<rparr>, k1))
                  else (s4, k1))
               else (s4, k1))
         else (s2, k1))"

text \<open>\<open>get_area\<close> (lines 54-56).\<close>

definition get_area :: "library \<Rightarrow> ParkingSpace \<Rightarrow> error + real" where
  "get_area cv s = contourArea cv (polygon s)"

text \<open>\<open>point_inside\<close> (lines 58-62).\<close>

definition point_inside :: "library \<Rightarrow> ParkingSpace \<Rightarrow> point \<Rightarrow> error + bool" where
  "point_inside cv s pnt =
     (let pt = (real_of_int (fst pnt), real_of_int (snd pnt))
      in case pointPolygonTest cv (polygon s) pt of
           Inl e \<Rightarrow> Inl e
         | Inr d \<Rightarrow> Inr (d \<ge> 0))"

text \<open>\<open>np.sum(intersection > 0)\<close> for the bitwise and of two masks of one shape.\<close>

definition count_and :: "nat \<Rightarrow> nat \<Rightarrow> mask \<Rightarrow> mask \<Rightarrow> nat" where
  "count_and rows cols m1 m2 =
     length (filter (\<lambda>(r, c). m1 r c \<and> m2 r c) (List.product [0..<rows] [0..<cols]))"

text \<open>\<open>bbox_intersection_ratio\<close> (lines 64-100). The array of the four corners of the box
  is built first (lines 75-80), before the area is looked at. \<open>self.polygon[:, 1]\<close> raises
  \<open>IndexError\<close> on the one-dimensional array of an empty polygon; \<open>np.zeros\<close> raises
  \<open>ValueError\<close> on a negative dimension.\<close>

fun bbox_intersection_ratio :: "library \<Rightarrow> ParkingSpace \<Rightarrow> bbox \<Rightarrow> error + real" where
  "bbox_intersection_ratio cv s (x1, y1, x2, y2) =
     (case np_array_int32 cv [(x1, y1), (x2, y1), (x2, y2), (x1, y2)] of
        Inl e \<Rightarrow> Inl e
      | Inr bbox_polygon \<Rightarrow>
         (case get_area cv s of
            Inl e \<Rightarrow> Inl e
          | Inr space_area \<Rightarrow>
              (if space_area = 0 then Inr 0
               else if polygon s = [] then Inl IndexError
               else
                 (let rows = max y2 (Max (set (map snd (polygon s)))) + 10;
                      cols = max x2 (Max (set (map fst (polygon s)))) + 10
                  in if rows < 0 \<or> cols < 0 then Inl ValueError
                     else
                       (case fillPoly cv (nat rows) (nat cols) (polygon s) of
                          Inl e \<Rightarrow> Inl e
                        | Inr mask_space \<Rightarrow>
                            (case fillPoly cv (nat rows) (nat cols) bbox_polygon of
                               Inl e \<Rightarrow> Inl e
                             | Inr mask_bbox \<Rightarrow>
                                 (let intersection_area =
                                        count_and (nat rows) (nat cols) mask_space mask_bbox
                                  in Inr (real intersection_area / space_area))))))))"

subsection \<open>The occupancy decision\<close>

text \<open>The loop of \<open>check_occupancy\<close> (lines 118-129) over the zipped detections; the
  accumulator is \<open>(max_intersection, vehicle_count)\<close>.\<close>

fun scan_detections ::
  "library \<Rightarrow> ParkingSpace \<Rightarrow> (bbox \<times> point) list \<Rightarrow> real \<times> nat \<Rightarrow> error + (real \<times> nat)" where
  "scan_detections cv s [] acc = Inr acc"
| "scan_detections cv s ((bb, centroid) # rest) (max_intersection, count) =
     (case point_inside cv s centroid of
        Inl e \<Rightarrow> Inl e
      | Inr centroid_inside \<Rightarrow>
          (case bbox_intersection_ratio cv s bb of
             Inl e \<Rightarrow> Inl e
           | Inr intersection_ratio \<Rightarrow>
               if intersection_ratio > 0 \<or> centroid_inside then
                 scan_detections cv s rest
                   (max max_intersection intersection_ratio,
                    if intersection_ratio > min_occupancy_ratio s then Suc count else count)
               else scan_detections cv s rest (max_intersection, count)))"

text \<open>Line 133: the raw decision from the largest counted ratio.\<close>

definition raw_decision :: "ParkingSpace \<Rightarrow> real \<Rightarrow> bool" where
  "raw_decision s max_intersection =
     (if min_occupancy_ratio s = 0 then max_intersection > 0
      else max_intersection \<ge> min_occupancy_ratio s)"

text \<open>\<open>np.mean\<close> of a non-empty list.\<close>

definition mean :: "real list \<Rightarrow> real" where
  "mean xs = sum_list xs / real (length xs)"

text \<open>Lines 134-145: push the raw sample, evict, vote.\<close>

definition push_sample :: "ParkingSpace \<Rightarrow> bool \<Rightarrow> bool \<times> ParkingSpace" where
  "push_sample s is_occupied =
     (let s1 = s\<lparr>confidence_smoothing :=
                   confidence_smoothing s @ [if is_occupied then 1 else 0]\<rparr>;
          s2 = (if length (confidence_smoothing s1) > smoothing_window s1
                then s1\<lparr>confidence_smoothing := tl (confidence_smoothing s1)\<rparr>
                else s1)
      in if length (confidence_smoothing s2) \<ge> 3
         then (mean (confidence_smoothing s2) \<ge> 1 / 2, s2)
         else (is_occupied, s2))"

text \<open>\<open>check_occupancy\<close> (lines 102-145).\<close>

definition check_occupancy ::
  "library \<Rightarrow> ParkingSpace \<Rightarrow> bbox list \<Rightarrow> point list \<Rightarrow> error + (bool \<times> ParkingSpace)" where
  "check_occupancy cv s vehicle_bboxes vehicle_centroids =
     (case scan_detections cv s (zip vehicle_bboxes vehicle_centroids) (0, 0) of
        Inl e \<Rightarrow> Inl e
      | Inr (max_intersection, count) \<Rightarrow>
          Inr (push_sample (s\<lparr>vehicle_count := count\<rparr>)
                 (raw_decision s max_intersection)))"

text \<open>A run of per-frame calls on one region: the decisions in order and the final
  object. A call that raises ends the run.\<close>

fun check_occupancy_seq ::
  "library \<Rightarrow> ParkingSpace \<Rightarrow> (bbox list \<times> point list) list \<Rightarrow> error + (bool list \<times> ParkingSpace)"
  where
  "check_occupancy_seq cv s [] = Inr ([], s)"
| "check_occupancy_seq cv s ((bbs, cs) # frames) =
     (case check_occupancy cv s bbs cs of
        Inl e \<Rightarrow> Inl e
      | Inr (d, s1) \<Rightarrow>
          (case check_occupancy_seq cv s1 frames of
             Inl e \<Rightarrow> Inl e
           | Inr (ds, s2) \<Rightarrow> Inr (d # ds, s2)))"

subsection \<open>The coordinator\<close>

record ParkingSpaceManager =
  spaces :: "ParkingSpace list"
  total_spaces :: nat

definition init_ParkingSpaceManager :: "ParkingSpace list \<Rightarrow> ParkingSpaceManager" where
  "init_ParkingSpaceManager sps = \<lparr> spaces = sps, total_spaces = length sps \<rparr>"

record StateChange =
  sc_space_id :: int
  sc_old_state :: string
  sc_new_state :: string
  sc_timestamp :: datetime

text \<open>The loop of \<open>update_all\<close> (lines 216-228): the events of the regions visited, the
  regions after their update, the clock counter. \<open>timestamp or datetime.now()\<close> reads
  the clock once more when no timestamp was passed.\<close>

fun update_spaces ::
  "library \<Rightarrow> clock \<Rightarrow> nat \<Rightarrow> ParkingSpace list \<Rightarrow> bbox list \<Rightarrow> point list \<Rightarrow> datetime option
     \<Rightarrow> error + (StateChange list \<times> ParkingSpace list \<times> nat)" where
  "update_spaces cv clk k [] bbs cs ts = Inr ([], [], k)"
| "update_spaces cv clk k (space # rest) bbs cs ts =
     (case check_occupancy cv space bbs cs of
        Inl e \<Rightarrow> Inl e
      | Inr (is_occupied, sp1) \<Rightarrow>
         (let old_state = state sp1;
              (sp2, k1) = update_state clk k sp1 is_occupied ts;
              (changes, k2) =
                (if old_state \<noteq> state sp2 \<and> old_state \<noteq> UNKNOWN then
                   (case ts of
                      Some t \<Rightarrow>
                        ([\<lparr> sc_space_id = space_id sp2,
                            sc_old_state = state_value old_state,
                            sc_new_state = state_value (state sp2),
                            sc_timestamp = t \<rparr>], k1)
                    | None \<Rightarrow>
                        ([\<lparr> sc_space_id = space_id sp2,
                            sc_old_state = state_value old_state,
                            sc_new_state = state_value (state sp2),
                            sc_timestamp = clk k1 \<rparr>], Suc k1))
                 else ([], k1))
          in (case update_spaces cv clk k2 rest bbs cs ts of
                Inl e \<Rightarrow> Inl e
              | Inr (later, rest', k3) \<Rightarrow> Inr (changes @ later, sp2 # rest', k3))))"

text \<open>\<open>update_all\<close> (lines 201-230); \<open>vehicle_classes\<close> is not used by the body.\<close>

definition update_all ::
  "library \<Rightarrow> clock \<Rightarrow> nat \<Rightarrow> ParkingSpaceManager \<Rightarrow> bbox list \<Rightarrow> point list \<Rightarrow> string list
     \<Rightarrow> datetime option \<Rightarrow> error + (StateChange list \<times> ParkingSpaceManager \<times> nat)" where
  "update_all cv clk k mgr vehicle_bboxes vehicle_centroids vehicle_classes ts =
     (case update_spaces cv clk k (spaces mgr) vehicle_bboxes vehicle_centroids ts of
        Inl e \<Rightarrow> Inl e
      | Inr (state_changes, sps, k') \<Rightarrow> Inr (state_changes, mgr\<lparr>spaces := sps\<rparr>, k'))"

text \<open>\<open>get_counts\<close> (lines 232-236) and \<open>get_occupancy_rate\<close> (lines 238-243).\<close>

definition get_counts :: "ParkingSpaceManager \<Rightarrow> int \<times> int" where
  "get_counts mgr =
     (let empty = int (length (filter (\<lambda>s. state s = EMPTY) (spaces mgr)));
          occupied = int (length (filter (\<lambda>s. state s = OCCUPIED) (spaces mgr)))
      in (empty, occupied))"

definition get_occupancy_rate :: "ParkingSpaceManager \<Rightarrow> real" where
  "get_occupancy_rate mgr =
     (if total_spaces mgr = 0 then 0
      else real_of_int (snd (get_counts mgr)) / real (total_spaces mgr))"

section \<open>Metrics: \<open>psd1/logger.py\<close>\<close>

record ChangeRecord =
  cr_timestamp :: datetime
  cr_space_id :: int
  cr_old_state :: string
  cr_new_state :: string
  cr_vehicle_class :: string
  cr_confidence :: real
  cr_occupancy_duration :: real

record MetricRecord =
  m_timestamp :: datetime
  m_empty :: int
  m_occupied :: int
  m_total :: int
  m_occupancy_rate :: real

record ParkingLogger =
  log_file :: "string option"
  state_changes :: "ChangeRecord list"
  metrics_history :: "MetricRecord list"

text \<open>\<open>log_state_change\<close> (lines 43-87). With a log file the row is appended to it;
  \<open>append_row path\<close> is the error \<open>open\<close> or the write raises, if any. The rows written
  and the line printed are not tracked.\<close>

definition log_state_change ::
  "(string \<Rightarrow> error option) \<Rightarrow> ParkingLogger \<Rightarrow> int \<Rightarrow> string \<Rightarrow> string \<Rightarrow> datetime
     \<Rightarrow> string option \<Rightarrow> real option \<Rightarrow> real option \<Rightarrow> error + ParkingLogger" where
  "log_state_change append_row lg sid old_state new_state timestamp vehicle_class confidence
       duration =
     (let change_record =
            \<lparr> cr_timestamp = timestamp,
              cr_space_id = sid,
              cr_old_state = old_state,
              cr_new_state = new_state,
              cr_vehicle_class = (case vehicle_class of None \<Rightarrow> [] | Some c \<Rightarrow> c),
              cr_confidence = (case confidence of None \<Rightarrow> 0 | Some c \<Rightarrow> c),
              cr_occupancy_duration = (case duration of None \<Rightarrow> 0 | Some d \<Rightarrow> d) \<rparr>;
          lg1 = lg\<lparr>state_changes := state_changes lg @ [change_record]\<rparr>
      in (case log_file lg of
            None \<Rightarrow> Inr lg1
          | Some path \<Rightarrow>
              (if path = [] then Inr lg1
               else (case append_row path of
                       Some e \<Rightarrow> Inl e
                     | None \<Rightarrow> Inr lg1))))"

text \<open>\<open>log_metrics\<close> (lines 89-104).\<close>

definition log_metrics :: "ParkingLogger \<Rightarrow> datetime \<Rightarrow> int \<Rightarrow> int \<Rightarrow> ParkingLogger" where
  "log_metrics lg timestamp empty_count occupied_count =
     lg\<lparr>metrics_history := metrics_history lg @
          [\<lparr> m_timestamp = timestamp,
             m_empty = empty_count,
             m_occupied = occupied_count,
             m_total = empty_count + occupied_count,
             m_occupancy_rate =
               (if empty_count + occupied_count > 0
                then real_of_int occupied_count / real_of_int (empty_count + occupied_count)
                else 0) \<rparr>]\<rparr>"

text \<open>
  \<open>pd.Timedelta(minutes=n)\<close> holds its value as a signed 64-bit count of nanoseconds and
  raises when \<open>n\<close> minutes do not fit; the model keeps the value in microseconds.
  Subtracting it from a \<open>datetime\<close> raises \<open>OverflowError\<close> when the result leaves the
  years 1 to 9999.
\<close>

definition datetime_max :: datetime where
  "datetime_max = 315537897599999999"

definition Timedelta_minutes :: "int \<Rightarrow> error + int" where
  "Timedelta_minutes n =
     (if \<bar>n * 60000000000\<bar> > 9223372036854775807 then Inl OutOfBoundsTimedelta
      else Inr (n * 60000000))"

definition datetime_sub :: "datetime \<Rightarrow> int \<Rightarrow> error + datetime" where
  "datetime_sub t delta =
     (if t - delta < 0 \<or> t - delta > datetime_max then Inl OverflowError
      else Inr (t - delta))"

text \<open>\<open>compute_turnover_rate\<close> (lines 106-137).\<close>

definition compute_turnover_rate :: "ParkingLogger \<Rightarrow> int option \<Rightarrow> int \<Rightarrow> error + real" where
  "compute_turnover_rate lg space_id_arg time_window_minutes =
     (if state_changes lg = [] then Inr 0
      else
        (let changes = filter (\<lambda>c. space_id_arg = None \<or> Some (cr_space_id c) = space_id_arg)
                         (state_changes lg)
         in if changes = [] then Inr 0
            else
              (let latest_time = Max (set (map cr_timestamp changes))
               in (case Timedelta_minutes time_window_minutes of
                     Inl e \<Rightarrow> Inl e
                   | Inr delta \<Rightarrow>
                       (case datetime_sub latest_time delta of
                          Inl e \<Rightarrow> Inl e
                        | Inr cutoff_time \<Rightarrow>
                            (let recent_changes =
                                   filter (\<lambda>c. cr_timestamp c \<ge> cutoff_time) changes;
                                 hours = real_of_int time_window_minutes / 60
                             in Inr (if hours > 0 then real (length recent_changes) / hours
                                     else 0)))))))"

text \<open>\<open>timestamp.replace(minute=0, second=0, microsecond=0)\<close>: the top of the hour.\<close>

definition hour_key :: "datetime \<Rightarrow> datetime" where
  "hour_key t = t - t mod 3600000000"

text \<open>The dictionary \<open>hourly_data\<close> is an association list in insertion order.
  \<open>dict_append d k v\<close> is \<open>d[k].append(v)\<close> for a key that is present.\<close>

definition dict_append ::
  "(datetime \<times> real list) list \<Rightarrow> datetime \<Rightarrow> real \<Rightarrow> (datetime \<times> real list) list" where
  "dict_append d k v = map (\<lambda>(k', vs). if k' = k then (k', vs @ [v]) else (k', vs)) d"

text \<open>The grouping loop of \<open>get_peak_hours\<close> (lines 172-176).\<close>

fun group_by_hour ::
  "MetricRecord list \<Rightarrow> (datetime \<times> real list) list \<Rightarrow> (datetime \<times> real list) list" where
  "group_by_hour [] hourly_data = hourly_data"
| "group_by_hour (metric # rest) hourly_data =
     (let hk = hour_key (m_timestamp metric);
          d1 = (if hk \<notin> set (map fst hourly_data) then hourly_data @ [(hk, [])]
                else hourly_data)
      in group_by_hour rest (dict_append d1 hk (m_occupancy_rate metric)))"

text \<open>\<open>sorted(items, key=lambda x: x[1], reverse=True)\<close>: Python reverses, sorts stably
  in ascending order and reverses again.\<close>

definition sorted_by_rate_reverse :: "(datetime \<times> real) list \<Rightarrow> (datetime \<times> real) list" where
  "sorted_by_rate_reverse items = rev (sort_key snd (rev items))"

record PeakHour =
  ph_timestamp :: string
  ph_average_occupancy_rate :: real

text \<open>\<open>get_peak_hours\<close> (lines 157-192). \<open>isoformat\<close> renders a \<open>datetime\<close> as text and is a
  parameter; \<open>hour_window\<close> is not used by the body.\<close>

definition get_peak_hours ::
  "(datetime \<Rightarrow> string) \<Rightarrow> ParkingLogger \<Rightarrow> int \<Rightarrow> PeakHour list" where
  "get_peak_hours isoformat lg hour_window =
     (if metrics_history lg = [] then []
      else
        (let hourly_data = group_by_hour (metrics_history lg) [];
             hourly_avg = map (\<lambda>(hour, rates). (hour, mean rates)) hourly_data;
             sorted_hours = sorted_by_rate_reverse hourly_avg
         in map (\<lambda>(hour, avg_rate).
                   \<lparr> ph_timestamp = isoformat hour, ph_average_occupancy_rate = avg_rate \<rparr>)
              (take 10 sorted_hours)))"

section \<open>Configuration: \<open>psd1/config_manager.py\<close>\<close>

text \<open>
  What \<open>json.load\<close> returns: any JSON value. An object is the \<open>dict\<close> built from it, a
  list of distinct keys with their values in insertion order. \<open>NaN\<close> and the infinities
  are accepted by the parser. A path names no file, a file that cannot be opened or is
  not text, a file that is not JSON, or a document.
\<close>

datatype json =
    JNull
  | JBool bool
  | JInt int
  | JFloat real
  | JNaN
  | JInfinity
  | JNegInfinity
  | JStr string
  | JArr "json list"
  | JObj "(string \<times> json) list"

datatype file_content = NoFile | Unreadable | NotText | NotJson | Json json

text \<open>\<open>v.get(key, dflt)\<close>: only a \<open>dict\<close> has the method.\<close>

fun py_get :: "json \<Rightarrow> string \<Rightarrow> json \<Rightarrow> error + json" where
  "py_get (JObj kvs) key dflt =
     (case map_of kvs key of None \<Rightarrow> Inr dflt | Some v \<Rightarrow> Inr v)"
| "py_get _ key dflt = Inl AttributeError"

text \<open>\<open>for x in v\<close>: a list yields its elements, a \<open>dict\<close> its keys, a string its
  characters; nothing else is iterable.\<close>

fun py_iter :: "json \<Rightarrow> error + json list" where
  "py_iter (JArr xs) = Inr xs"
| "py_iter (JObj kvs) = Inr (map (\<lambda>(k, v). JStr k) kvs)"
| "py_iter (JStr s) = Inr (map (\<lambda>c. JStr [c]) s)"
| "py_iter _ = Inl TypeError"

text \<open>\<open>v[key]\<close> for a string \<open>key\<close>: a \<open>dict\<close> is looked up; a list and a string take
  integer indices only; nothing else can be subscripted.\<close>

fun py_getitem_str :: "json \<Rightarrow> string \<Rightarrow> error + json" where
  "py_getitem_str (JObj kvs) key =
     (case map_of kvs key of None \<Rightarrow> Inl KeyError | Some v \<Rightarrow> Inr v)"
| "py_getitem_str _ key = Inl TypeError"

text \<open>\<open>v[i]\<close> for the index \<open>i\<close> = 0 or 1: an entry of a list, a character of a
  string; a \<open>dict\<close> from JSON has string keys only.\<close>

fun py_getitem_nat :: "json \<Rightarrow> nat \<Rightarrow> error + json" where
  "py_getitem_nat (JArr xs) i = (if i < length xs then Inr (xs ! i) else Inl IndexError)"
| "py_getitem_nat (JStr s) i = (if i < length s then Inr (JStr [s ! i]) else Inl IndexError)"
| "py_getitem_nat (JObj kvs) i = Inl KeyError"
| "py_getitem_nat _ i = Inl TypeError"

text \<open>\<open>int(v)\<close>: a float is truncated towards zero, \<open>NaN\<close> and the infinities raise,
  \<open>True\<close> is 1. What \<open>int\<close> makes of a string is a parameter: \<open>int_of_str s\<close> is the
  integer the text denotes, or \<open>None\<close> where \<open>int\<close> raises \<open>ValueError\<close>.\<close>

fun py_int :: "(string \<Rightarrow> int option) \<Rightarrow> json \<Rightarrow> error + int" where
  "py_int int_of_str (JInt n) = Inr n"
| "py_int int_of_str (JBool b) = Inr (if b then 1 else 0)"
| "py_int int_of_str (JFloat r) = Inr (if r \<ge> 0 then \<lfloor>r\<rfloor> else \<lceil>r\<rceil>)"
| "py_int int_of_str JNaN = Inl ValueError"
| "py_int int_of_str JInfinity = Inl OverflowError"
| "py_int int_of_str JNegInfinity = Inl OverflowError"
| "py_int int_of_str (JStr s) = (case int_of_str s of None \<Rightarrow> Inl ValueError | Some n \<Rightarrow> Inr n)"
| "py_int int_of_str _ = Inl TypeError"

text \<open>\<open>(int(p[0]), int(p[1]))\<close>, evaluated from left to right.\<close>

definition convert_point :: "(string \<Rightarrow> int option) \<Rightarrow> json \<Rightarrow> error + point" where
  "convert_point int_of_str p =
     (case py_getitem_nat p 0 of
        Inl e \<Rightarrow> Inl e
      | Inr a \<Rightarrow>
          (case py_int int_of_str a of
             Inl e \<Rightarrow> Inl e
           | Inr x \<Rightarrow>
               (case py_getitem_nat p 1 of
                  Inl e \<Rightarrow> Inl e
                | Inr b \<Rightarrow>
                    (case py_int int_of_str b of
                       Inl e \<Rightarrow> Inl e
                     | Inr y \<Rightarrow> Inr (x, y)))))"

text \<open>The list comprehension of line 52 over the points that the iteration yields.\<close>

fun convert_points :: "(string \<Rightarrow> int option) \<Rightarrow> json list \<Rightarrow> error + point list" where
  "convert_points int_of_str [] = Inr []"
| "convert_points int_of_str (p # ps) =
     (case convert_point int_of_str p of
        Inl e \<Rightarrow> Inl e
      | Inr pt \<Rightarrow>
          (case convert_points int_of_str ps of
             Inl e \<Rightarrow> Inl e
           | Inr pts \<Rightarrow> Inr (pt # pts)))"

definition convert_polygon :: "(string \<Rightarrow> int option) \<Rightarrow> json \<Rightarrow> error + point list" where
  "convert_polygon int_of_str polygon_points =
     (case py_iter polygon_points of
        Inl e \<Rightarrow> Inl e
      | Inr ps \<Rightarrow> convert_points int_of_str ps)"

text \<open>The body of the loop of \<open>load_spaces\<close> (lines 49-55) for one region.\<close>

definition load_space ::
  "library \<Rightarrow> (string \<Rightarrow> int option) \<Rightarrow> json \<Rightarrow> json
     \<Rightarrow> error + (json, json) ParkingSpace_object" where
  "load_space lib int_of_str default_ratio space_config =
     (case py_getitem_str space_config ''id'' of
        Inl e \<Rightarrow> Inl e
      | Inr sid \<Rightarrow>
          (case py_getitem_str space_config ''polygon'' of
             Inl e \<Rightarrow> Inl e
           | Inr polygon_points \<Rightarrow>
               (case convert_polygon int_of_str polygon_points of
                  Inl e \<Rightarrow> Inl e
                | Inr poly \<Rightarrow>
                    (case py_get space_config ''min_occupancy_ratio'' default_ratio of
                       Inl e \<Rightarrow> Inl e
                     | Inr min_ratio \<Rightarrow> new_ParkingSpace lib sid poly min_ratio))))"

text \<open>The loop of \<open>load_spaces\<close> (lines 48-56).\<close>

fun load_space_configs ::
  "library \<Rightarrow> (string \<Rightarrow> int option) \<Rightarrow> json \<Rightarrow> json list
     \<Rightarrow> error + (json, json) ParkingSpace_object list" where
  "load_space_configs lib int_of_str default_ratio [] = Inr []"
| "load_space_configs lib int_of_str default_ratio (space_config # rest) =
     (case load_space lib int_of_str default_ratio space_config of
        Inl e \<Rightarrow> Inl e
      | Inr space \<Rightarrow>
          (case load_space_configs lib int_of_str default_ratio rest of
             Inl e \<Rightarrow> Inl e
           | Inr sps \<Rightarrow> Inr (space # sps)))"

text \<open>\<open>ConfigManager.load_spaces\<close> (lines 16-58). There is no other code between reading
  the document and constructing the regions: nothing looks at the number of points of a
  polygon or at the type of an id.\<close>

definition load_spaces ::
  "library \<Rightarrow> (string \<Rightarrow> int option) \<Rightarrow> (string \<Rightarrow> file_content) \<Rightarrow> string
     \<Rightarrow> error + (json, json) ParkingSpace_object list" where
  "load_spaces lib int_of_str fs config_path =
     (case fs config_path of
        NoFile \<Rightarrow> Inl FileNotFoundError
      | Unreadable \<Rightarrow> Inl OSError
      | NotText \<Rightarrow> Inl UnicodeDecodeError
      | NotJson \<Rightarrow> Inl JSONDecodeError
      | Json config \<Rightarrow>
          (case py_get config ''default_min_occupancy_ratio'' (JFloat (2 / 10)) of
             Inl e \<Rightarrow> Inl e
           | Inr default_ratio \<Rightarrow>
               (case py_get config ''spaces'' (JArr []) of
                  Inl e \<Rightarrow> Inl e
                | Inr space_list \<Rightarrow>
                    (case py_iter space_list of
                       Inl e \<Rightarrow> Inl e
                     | Inr space_configs \<Rightarrow>
                         load_space_configs lib int_of_str default_ratio space_configs))))"

section \<open>The frame pipeline: \<open>psd1/parking_analyzer.py\<close>\<close>

text \<open>The loop of lines 125-136: each event is logged with the dwell time of the first
  region that has the event's id.\<close>

fun log_state_changes ::
  "(string \<Rightarrow> error option) \<Rightarrow> ParkingLogger \<Rightarrow> ParkingSpace list \<Rightarrow> StateChange list
     \<Rightarrow> error + ParkingLogger" where
  "log_state_changes append_row lg sps [] = Inr lg"
| "log_state_changes append_row lg sps (change # rest) =
     (case find (\<lambda>s. space_id s = sc_space_id change) sps of
        None \<Rightarrow> Inl StopIteration
      | Some space \<Rightarrow>
          (case log_state_change append_row lg (sc_space_id change) (sc_old_state change)
                  (sc_new_state change) (sc_timestamp change) None None
                  (Some (occupancy_duration space)) of
             Inl e \<Rightarrow> Inl e
           | Inr lg1 \<Rightarrow> log_state_changes append_row lg1 sps rest))"

text \<open>
  \<open>ParkingAnalyzer.process_frame\<close> (lines 98-147), from the output of the detector on.
  Preprocessing, the detector and the visualizer are outside the model: the detections
  are arguments, the annotated frame is not a result. The state is the coordinator and
  the logger of the analyzer. This is the only place where the program logs a snapshot:
  \<open>log_metrics\<close> (line 140) follows \<open>update_all\<close> (line 120) in every frame.
\<close>

definition process_frame ::
  "library \<Rightarrow> (string \<Rightarrow> error option) \<Rightarrow> clock \<Rightarrow> nat \<Rightarrow> ParkingSpaceManager \<Rightarrow> ParkingLogger
     \<Rightarrow> bbox list \<Rightarrow> point list \<Rightarrow> string list \<Rightarrow> datetime option
     \<Rightarrow> error + (ParkingSpaceManager \<times> ParkingLogger \<times> nat)" where
  "process_frame cv append_row clk k mgr lg vehicle_bboxes vehicle_centroids vehicle_classes
       timestamp_arg =
     (let (timestamp, k1) =
            (case timestamp_arg of None \<Rightarrow> (clk k, Suc k) | Some t \<Rightarrow> (t, k))
      in (case update_all cv clk k1 mgr vehicle_bboxes vehicle_centroids vehicle_classes
                 (Some timestamp) of
            Inl e \<Rightarrow> Inl e
          | Inr (changes, mgr1, k2) \<Rightarrow>
              (case log_state_changes append_row lg (spaces mgr1) changes of
                 Inl e \<Rightarrow> Inl e
               | Inr lg1 \<Rightarrow>
                   (let (empty, occupied) = get_counts mgr1
                    in Inr (mgr1, log_metrics lg1 timestamp empty occupied, k2)))))"

section \<open>Vocabulary of the properties\<close>

text \<open>The timestamp an \<open>update_state\<close> call works with: its argument, or the clock
  reading it takes when the argument is \<open>None\<close>.\<close>

definition call_time :: "clock \<Rightarrow> nat \<Rightarrow> datetime option \<Rightarrow> datetime" where
  "call_time clk k timestamp_arg = (case timestamp_arg of None \<Rightarrow> clk k | Some t \<Rightarrow> t)"

text \<open>The state a decision stands for (line 158).\<close>

definition target_state :: "bool \<Rightarrow> SpaceState" where
  "target_state is_occupied = (if is_occupied then OCCUPIED else EMPTY)"

text \<open>The new state differs from the state held before the call, and that state was not
  \<open>UNKNOWN\<close>.\<close>

definition logs_transition :: "ParkingSpace \<Rightarrow> bool \<Rightarrow> bool" where
  "logs_transition s is_occupied =
     (target_state is_occupied \<noteq> state s \<and> state s \<noteq> UNKNOWN)"

text \<open>A region of the examples: a 2 by 2 square with threshold 0.2, as constructed.\<close>

definition square_space :: ParkingSpace where
  "square_space = init_ParkingSpace 1 [(0, 0), (2, 0), (2, 2), (0, 2)] (2 / 10)"

text \<open>The sample \<open>check_occupancy\<close> pushes for a raw decision (line 134).\<close>

definition sample :: "bool \<Rightarrow> real" where
  "sample is_occupied = (if is_occupied then 1 else 0)"

text \<open>The last five entries of a list, or all of it when it has fewer: what a window of
  capacity 5 holds after the oldest entries were evicted.\<close>

definition last5 :: "'a list \<Rightarrow> 'a list" where
  "last5 xs = drop (length xs - 5) xs"

text \<open>The raw decision of one frame: lines 115-133 without the smoothing.\<close>

definition raw_occupancy :: "library \<Rightarrow> ParkingSpace \<Rightarrow> bbox list \<times> point list \<Rightarrow> error + bool" where
  "raw_occupancy cv s frame =
     (case scan_detections cv s (zip (fst frame) (snd frame)) (0, 0) of
        Inl e \<Rightarrow> Inl e
      | Inr (max_intersection, count) \<Rightarrow> Inr (raw_decision s max_intersection))"

text \<open>The ratios of the detections that have positive overlap or whose centroid is
  inside the region, in the words of the specification; \<open>spec_max_ratio\<close> is their maximum,
  and 0 when there is none.\<close>

definition spec_counted_ratios :: "library \<Rightarrow> ParkingSpace \<Rightarrow> (bbox \<times> point) list \<Rightarrow> real list" where
  "spec_counted_ratios cv s dets =
     concat (map (\<lambda>(bb, centroid).
                (case (bbox_intersection_ratio cv s bb, point_inside cv s centroid) of
                   (Inr r, Inr inside) \<Rightarrow> (if r > 0 \<or> inside then [r] else [])
                 | _ \<Rightarrow> []))
             dets)"

definition spec_max_ratio :: "library \<Rightarrow> ParkingSpace \<Rightarrow> (bbox \<times> point) list \<Rightarrow> real" where
  "spec_max_ratio cv s dets =
     (if spec_counted_ratios cv s dets = [] then 0 else Max (set (spec_counted_ratios cv s dets)))"

text \<open>\<open>cv2.contourArea\<close> returns the absolute value of the area: it is never negative.\<close>

definition area_nonneg :: "library \<Rightarrow> bool" where
  "area_nonneg cv = (\<forall>poly a. contourArea cv poly = Inr a \<longrightarrow> 0 \<le> a)"

text \<open>
  An instance of the library for the examples, exact on axis-aligned rectangles: the
  area is half the absolute value of the shoelace sum, and a polygon is filled and
  tested through its bounding box, the border included. An integer outside the \<open>int32\<close>
  range raises, as in NumPy 2.
\<close>

definition shoelace :: "point list \<Rightarrow> int" where
  "shoelace pts =
     sum_list (map (\<lambda>((xa, ya), (xb, yb)). xa * yb - xb * ya) (zip pts (rotate1 pts)))"

definition in_bounds :: "point list \<Rightarrow> real \<times> real \<Rightarrow> bool" where
  "in_bounds pts pt =
     (real_of_int (Min (set (map fst pts))) \<le> fst pt
      \<and> fst pt \<le> real_of_int (Max (set (map fst pts)))
      \<and> real_of_int (Min (set (map snd pts))) \<le> snd pt
      \<and> snd pt \<le> real_of_int (Max (set (map snd pts))))"

definition rect_library :: library where
  "rect_library =
     \<lparr> contourArea = (\<lambda>pts. Inr (\<bar>real_of_int (shoelace pts)\<bar> / 2)),
       pointPolygonTest = (\<lambda>pts pt.
          if pts = [] then Inl Cv2Error
          else Inr (if in_bounds pts pt then 1 else - 1)),
       fillPoly = (\<lambda>rows cols pts.
          if pts = [] then Inl Cv2Error
          else Inr (\<lambda>r c. r < rows \<and> c < cols \<and> in_bounds pts (real c, real r))),
       int32_overflow = (\<lambda>v. Inl OverflowError) \<rparr>"

text \<open>Three frames for the square region: a box over half of it, no detection, a box
  over all of it.\<close>

definition scenario_frames :: "(bbox list \<times> point list) list" where
  "scenario_frames = [([(0, 0, 0, 1)], [(0, 0)]), ([], []), ([(0, 0, 2, 2)], [(1, 1)])]"

text \<open>The state of a region changed over an update, from a state other than \<open>UNKNOWN\<close>.\<close>

definition state_changed :: "ParkingSpace \<Rightarrow> ParkingSpace \<Rightarrow> bool" where
  "state_changed s s' = (state s \<noteq> state s' \<and> state s \<noteq> UNKNOWN)"

text \<open>The transition event of a region, from the region before and after the update.\<close>

definition transition_event :: "datetime \<Rightarrow> ParkingSpace \<Rightarrow> ParkingSpace \<Rightarrow> StateChange" where
  "transition_event t s s' =
     \<lparr> sc_space_id = space_id s, sc_old_state = state_value (state s),
       sc_new_state = state_value (state s'), sc_timestamp = t \<rparr>"

text \<open>The events of the regions that changed, in the order of the regions.\<close>

definition events_of ::
  "datetime \<Rightarrow> ParkingSpace list \<Rightarrow> ParkingSpace list \<Rightarrow> StateChange list" where
  "events_of t before after =
     map (\<lambda>(s, s'). transition_event t s s')
       (filter (\<lambda>(s, s'). state_changed s s') (zip before after))"

text \<open>An event without its timestamp.\<close>

definition untimed :: "StateChange \<Rightarrow> StateChange" where
  "untimed e = e\<lparr>sc_timestamp := 0\<rparr>"

text \<open>A region appended one entry to its log, with the new state, exactly when its
  state changed from a state other than \<open>UNKNOWN\<close>.\<close>

definition logged_iff_changed :: "ParkingSpace \<Rightarrow> ParkingSpace \<Rightarrow> bool" where
  "logged_iff_changed s s' =
     (if state_changed s s'
      then butlast (state_history s') = state_history s
         \<and> length (state_history s') = Suc (length (state_history s))
         \<and> snd (last (state_history s')) = state s'
      else state_history s' = state_history s)"

text \<open>The number of regions of a list that are in a given state.\<close>

definition count_state :: "SpaceState \<Rightarrow> ParkingSpace list \<Rightarrow> nat" where
  "count_state st sps = length (filter (\<lambda>s. state s = st) sps)"

text \<open>A logger as constructed without a log file (lines 18-31).\<close>

definition init_ParkingLogger :: ParkingLogger where
  "init_ParkingLogger = \<lparr> log_file = None, state_changes = [], metrics_history = [] \<rparr>"

text \<open>The events in the scope of a query: all of them, or those of one region.\<close>

definition in_scope :: "int option \<Rightarrow> ChangeRecord list \<Rightarrow> ChangeRecord list" where
  "in_scope space_id_arg changes =
     (case space_id_arg of
        None \<Rightarrow> changes
      | Some sid \<Rightarrow> filter (\<lambda>c. cr_space_id c = sid) changes)"

text \<open>The latest timestamp of a non-empty list of events.\<close>

definition spec_latest_timestamp :: "ChangeRecord list \<Rightarrow> datetime" where
  "spec_latest_timestamp changes = Max (set (map cr_timestamp changes))"

text \<open>The number of events whose timestamp lies within
  \<open>[latest_timestamp - window_minutes, latest_timestamp]\<close>.\<close>

definition spec_window_count :: "int \<Rightarrow> ChangeRecord list \<Rightarrow> nat" where
  "spec_window_count window_minutes changes =
     length (filter (\<lambda>c. spec_latest_timestamp changes - window_minutes * 60000000 \<le> cr_timestamp c
                          \<and> cr_timestamp c \<le> spec_latest_timestamp changes) changes)"

text \<open>A transition event of region 1 at a number of minutes after 2024-01-01T00:00:00.\<close>

definition change_at :: "int \<Rightarrow> ChangeRecord" where
  "change_at minutes =
     \<lparr> cr_timestamp = 63839664000000000 + minutes * 60000000, cr_space_id = 1,
       cr_old_state = ''empty'', cr_new_state = ''occupied'', cr_vehicle_class = [],
       cr_confidence = 0, cr_occupancy_duration = 0 \<rparr>"

text \<open>A logger holding four transition events, at minutes 5, 20, 40 and 59.\<close>

definition four_events_logger :: ParkingLogger where
  "four_events_logger =
     init_ParkingLogger\<lparr>state_changes := [change_at 5, change_at 20, change_at 40, change_at 59]\<rparr>"

text \<open>The distinct values of a list, in the order of their first occurrence.\<close>

fun first_occurrences :: "'a list \<Rightarrow> 'a list" where
  "first_occurrences [] = []"
| "first_occurrences (x # xs) = x # filter (\<lambda>y. y \<noteq> x) (first_occurrences xs)"

text \<open>The occupancy rates of the snapshots that fall in one hour, in recording order.\<close>

definition rates_of_hour :: "datetime \<Rightarrow> MetricRecord list \<Rightarrow> real list" where
  "rates_of_hour h ms =
     map m_occupancy_rate (filter (\<lambda>m. hour_key (m_timestamp m) = h) ms)"

text \<open>The groups of the specification: the snapshots grouped by their timestamp
  truncated to the hour, each group with the average of its occupancy rates.\<close>

definition spec_hour_groups :: "MetricRecord list \<Rightarrow> (datetime \<times> real) list" where
  "spec_hour_groups ms =
     map (\<lambda>h. (h, mean (rates_of_hour h ms)))
       (first_occurrences (map (\<lambda>m. hour_key (m_timestamp m)) ms))"

text \<open>The entry \<open>get_peak_hours\<close> returns for a group.\<close>

definition peak_entry :: "(datetime \<Rightarrow> string) \<Rightarrow> datetime \<times> real \<Rightarrow> PeakHour" where
  "peak_entry isoformat g =
     \<lparr> ph_timestamp = isoformat (fst g), ph_average_occupancy_rate = snd g \<rparr>"

text \<open>Snapshots of three hours of 2024-01-01 with rates 0.9, 0.1 and 0.9, and the ISO
  rendering of these hours.\<close>

definition three_hours_logger :: ParkingLogger where
  "three_hours_logger =
     log_metrics
       (log_metrics
          (log_metrics init_ParkingLogger (63839664000000000 + 600000000) 1 9)
          (63839664000000000 + 3600000000 + 1200000000) 9 1)
       (63839664000000000 + 7200000000 + 1800000000) 1 9"

definition iso_hours :: "datetime \<Rightarrow> string" where
  "iso_hours t =
     (if t = 63839664000000000 then ''2024-01-01T00:00:00''
      else if t = 63839664000000000 + 3600000000 then ''2024-01-01T01:00:00''
      else ''2024-01-01T02:00:00'')"

text \<open>The log file of the examples: appending a row never raises.\<close>

definition no_file :: "string \<Rightarrow> error option" where
  "no_file path = None"

text \<open>The snapshot that \<open>process_frame\<close> appended last.\<close>

definition last_snapshot :: "ParkingLogger \<Rightarrow> MetricRecord" where
  "last_snapshot lg = last (metrics_history lg)"

text \<open>A coordinator as constructed from two regions, both still \<open>UNKNOWN\<close>.\<close>

definition two_regions :: ParkingSpaceManager where
  "two_regions = init_ParkingSpaceManager [square_space, square_space\<lparr>space_id := 2\<rparr>]"

text \<open>
  The configuration file
  \<open>{"spaces": [{"id": 1, "polygon": [[0, 0], [10, 10]]}]}\<close>:
  one region whose polygon has 2 points. The file system holds it under the name
  \<open>two_points.json\<close>.
\<close>

definition two_point_config :: json where
  "two_point_config =
     JObj [(''spaces'',
            JArr [JObj [(''id'', JInt 1),
                        (''polygon'', JArr [JArr [JInt 0, JInt 0], JArr [JInt 10, JInt 10]])]])]"

definition example_files :: "string \<Rightarrow> file_content" where
  "example_files path =
     (if path = ''two_points.json'' then Json two_point_config
      else if path = ''broken.json'' then NotJson
      else NoFile)"

section \<open>Verified properties\<close>

subsection \<open>The region state machine\<close>

text \<open>What one \<open>update_state\<close> call does to the object, field by field.\<close>

lemma update_state_fields:
  "fst (update_state clk k s b ts) =
     (if logs_transition s b then
        s\<lparr> previous_state := state s, state := target_state b,
           last_change_time := Some (call_time clk k ts),
           state_history := state_history s @ [(call_time clk k ts, target_state b)],
           occupancy_duration :=
             (if \<not> b \<and> state s = OCCUPIED \<and> state_history s \<noteq> [] then
                total_seconds (call_time clk k ts - fst (last (state_history s)))
              else occupancy_duration s) \<rparr>
      else s\<lparr> previous_state := state s, state := target_state b \<rparr>)"
  by (cases ts; cases "state_history s" rule: rev_cases)
     (auto simp: update_state_def call_time_def target_state_def logs_transition_def
         Let_def nth_append split: prod.splits)

lemma update_state_clock:
  "snd (update_state clk k s b ts) = (case ts of None \<Rightarrow> Suc k | Some t \<Rightarrow> k)"
  by (cases ts) (auto simp: update_state_def Let_def split: prod.splits)

text \<open>
  Claim C2. For every region and every call \<open>update_state(is_occupied, timestamp)\<close>, one
  entry is appended to \<open>state_history\<close> if and only if the new state differs from the
  state held before the call and that state was not \<open>UNKNOWN\<close>; the entry is the call's
  timestamp with the new state. Otherwise \<open>state_history\<close> and \<open>last_change_time\<close> are
  unchanged; in particular nothing is logged on the first classification, from
  \<open>UNKNOWN\<close>.
\<close>

theorem update_state_log_iff:
  "(length (state_history (fst (update_state clk k s b ts))) = Suc (length (state_history s)))
      = (target_state b \<noteq> state s \<and> state s \<noteq> UNKNOWN)
   \<and> (if target_state b \<noteq> state s \<and> state s \<noteq> UNKNOWN
      then state_history (fst (update_state clk k s b ts))
             = state_history s @ [(call_time clk k ts, target_state b)]
      else state_history (fst (update_state clk k s b ts)) = state_history s
         \<and> last_change_time (fst (update_state clk k s b ts)) = last_change_time s)
   \<and> (state s = UNKNOWN \<longrightarrow>
        state_history (fst (update_state clk k s b ts)) = state_history s)"
  by (simp add: update_state_fields logs_transition_def)

theorem update_state_log_iff_witness:
  "state_history (fst (update_state (\<lambda>n. 0) 0 (square_space\<lparr>state := OCCUPIED\<rparr>)
       False (Some 7000000)))
     = [(7000000, EMPTY)]
   \<and> state_history (fst (update_state (\<lambda>n. 0) 0 square_space True (Some 7000000))) = []"
  using update_state_log_iff [of "(\<lambda>n. 0)" 0 "square_space\<lparr>state := OCCUPIED\<rparr>"
       False "Some 7000000"]
     update_state_log_iff [of "(\<lambda>n. 0)" 0 square_space True "Some 7000000"]
  by (simp add: square_space_def init_ParkingSpace_def target_state_def call_time_def)

text \<open>
  Claim C5. For every \<open>update_state\<close> call: when the call logs a transition from
  \<open>OCCUPIED\<close> to \<open>EMPTY\<close> and the log then has at least two entries, \<open>occupancy_duration\<close>
  becomes the call's timestamp minus the timestamp of the entry before the new one, in
  seconds; in every other case \<open>occupancy_duration\<close> keeps its value.
\<close>

theorem update_state_dwell:
  "occupancy_duration (fst (update_state clk k s b ts)) =
     (if logs_transition s b \<and> state s = OCCUPIED \<and> target_state b = EMPTY
         \<and> length (state_history (fst (update_state clk k s b ts))) \<ge> 2
      then total_seconds (call_time clk k ts
             - fst (state_history (fst (update_state clk k s b ts))
                     ! (length (state_history (fst (update_state clk k s b ts))) - 2)))
      else occupancy_duration s)"
  by (cases "state_history s" rule: rev_cases)
     (auto simp: update_state_fields logs_transition_def target_state_def nth_append)

theorem update_state_dwell_witness:
  "occupancy_duration (fst (update_state (\<lambda>n. 0) 0
       (square_space\<lparr>state := OCCUPIED, state_history := [(4000000, OCCUPIED)]\<rparr>)
       False (Some 7000000))) = 3
   \<and> occupancy_duration (fst (update_state (\<lambda>n. 0) 0
       (square_space\<lparr>state := OCCUPIED\<rparr>) False (Some 7000000))) = 0"
proof -
  let ?s2 = "square_space\<lparr>state := OCCUPIED, state_history := [(4000000, OCCUPIED)]\<rparr>"
  let ?s1 = "square_space\<lparr>state := OCCUPIED\<rparr>"
  have h2: "state_history (fst (update_state (\<lambda>n. 0) 0 ?s2 False (Some 7000000)))
              = [(4000000, OCCUPIED), (7000000, EMPTY)]"
    by (simp add: update_state_fields logs_transition_def target_state_def call_time_def)
  have h1: "state_history (fst (update_state (\<lambda>n. 0) 0 ?s1 False (Some 7000000)))
              = [(7000000, EMPTY)]"
    by (simp add: update_state_fields logs_transition_def target_state_def call_time_def
          square_space_def init_ParkingSpace_def)
  have od: "occupancy_duration square_space = 0"
    by (simp add: square_space_def init_ParkingSpace_def)
  show ?thesis
    using update_state_dwell [of "(\<lambda>n. 0)" 0 ?s2 False "Some 7000000"]
      update_state_dwell [of "(\<lambda>n. 0)" 0 ?s1 False "Some 7000000"]
    by (simp add: h1 h2 od target_state_def call_time_def logs_transition_def
          total_seconds_def)
qed

subsection \<open>Overlap and the raw decision\<close>

lemma np_array_int32_in_range:
  "list_all (\<lambda>(x, y). in_int32 x \<and> in_int32 y) pts \<Longrightarrow> np_array_int32 lib pts = Inr pts"
  by (induction pts) (auto simp: np_int32_def)

text \<open>
  Claim C8. For every region whose polygon area evaluates to zero,
  \<open>bbox_intersection_ratio\<close> returns 0.0 for every bounding box and does not raise: the
  division by the area is not reached. The coordinates of the box are inside the
  \<open>int32\<close> range, so that the array of its corners (lines 75-80), which is built before
  the area is looked at, exists.
\<close>

theorem zero_area_ratio:
  "in_int32 x1 \<Longrightarrow> in_int32 y1 \<Longrightarrow> in_int32 x2 \<Longrightarrow> in_int32 y2 \<Longrightarrow> get_area cv s = Inr 0
   \<Longrightarrow> bbox_intersection_ratio cv s (x1, y1, x2, y2) = Inr 0"
  by (simp add: np_int32_def)

theorem zero_area_ratio_witness:
  "get_area rect_library (init_ParkingSpace 2 [(0, 0), (5, 5), (10, 10)] (2 / 10)) = Inr 0
   \<and> bbox_intersection_ratio rect_library
        (init_ParkingSpace 2 [(0, 0), (5, 5), (10, 10)] (2 / 10)) (0, 0, 10, 10) = Inr 0"
proof -
  have a: "get_area rect_library (init_ParkingSpace 2 [(0, 0), (5, 5), (10, 10)] (2 / 10)) = Inr 0"
    by (simp add: get_area_def rect_library_def init_ParkingSpace_def shoelace_def)
  have r: "in_int32 0" "in_int32 10" by (simp_all add: in_int32_def)
  from a zero_area_ratio [OF r(1) r(1) r(2) r(2) a] show ?thesis by (rule conjI)
qed

text \<open>Outside the range the call does what the conversion of the corners does: when
  that raises, so does the call, whatever the area.\<close>

lemma bbox_intersection_ratio_overflow:
  "np_array_int32 cv [(x1, y1), (x2, y1), (x2, y2), (x1, y2)] = Inl e
   \<Longrightarrow> bbox_intersection_ratio cv s (x1, y1, x2, y2) = Inl e"
  by (simp del: np_array_int32.simps)

lemma bbox_intersection_ratio_overflow_example:
  "bbox_intersection_ratio rect_library s (0, 0, 2147483648, 0) = Inl OverflowError"
  by (simp add: np_int32_def in_int32_def rect_library_def)

text \<open>The loop of \<open>check_occupancy\<close> computes the largest counted ratio.\<close>

lemma bbox_intersection_ratio_nonneg:
  assumes "area_nonneg cv" and "bbox_intersection_ratio cv s bb = Inr r"
  shows "0 \<le> r"
proof -
  obtain x1 y1 x2 y2 where bb: "bb = (x1, y1, x2, y2)" by (cases bb) auto
  show ?thesis
  proof (cases "np_array_int32 cv [(x1, y1), (x2, y1), (x2, y2), (x1, y2)]")
    case (Inl e)
    with assms(2) bb show ?thesis by (simp del: np_array_int32.simps)
  next
    case arr: (Inr bbox_polygon)
    show ?thesis
    proof (cases "get_area cv s")
      case (Inl e)
      with assms(2) bb arr show ?thesis by (simp del: np_array_int32.simps)
    next
      case (Inr a)
      then have "0 \<le> a" using assms(1) by (auto simp: area_nonneg_def get_area_def)
      with assms(2) bb arr Inr show ?thesis
        by (auto simp: Let_def simp del: np_array_int32.simps split: if_splits sum.splits)
    qed
  qed
qed



lemma scan_detections_Cons:
  "scan_detections cv s ((bb, c) # dets) (m, n) = Inr res \<Longrightarrow>
   \<exists>inside r. point_inside cv s c = Inr inside \<and> bbox_intersection_ratio cv s bb = Inr r
     \<and> scan_detections cv s dets
          (if r > 0 \<or> inside
           then (max m r, if r > min_occupancy_ratio s then Suc n else n)
           else (m, n)) = Inr res"
  apply (cases "point_inside cv s c")
   apply (simp del: bbox_intersection_ratio.simps)
  apply (cases "bbox_intersection_ratio cv s bb")
   apply (simp del: bbox_intersection_ratio.simps)
  apply (auto simp del: bbox_intersection_ratio.simps split: if_splits)
  done

lemma counted_ratios_Nil: "spec_counted_ratios cv s [] = []"
  by (simp add: spec_counted_ratios_def)

lemma counted_ratios_Cons:
  "point_inside cv s c = Inr inside \<Longrightarrow> bbox_intersection_ratio cv s bb = Inr r \<Longrightarrow>
   spec_counted_ratios cv s ((bb, c) # dets) =
     (if r > 0 \<or> inside then r # spec_counted_ratios cv s dets else spec_counted_ratios cv s dets)"
  by (simp add: spec_counted_ratios_def del: bbox_intersection_ratio.simps)

lemma Max_insert_max:
  fixes m r :: real
  assumes "finite A"
  shows "Max (insert (max m r) A) = Max (insert m (insert r A))"
proof (cases "A = {}")
  case True
  then show ?thesis by (simp add: max.commute)
next
  case False
  with assms show ?thesis by (simp add: max.assoc)
qed


lemma scan_detections_max:
  assumes "area_nonneg cv"
  shows "scan_detections cv s dets (m, n) = Inr (m', n') \<Longrightarrow>
         m' = Max (insert m (set (spec_counted_ratios cv s dets)))"
proof (induction dets arbitrary: m n)
  case Nil
  then show ?case by (simp add: counted_ratios_Nil)
next
  case (Cons d dets)
  obtain bb c where d: "d = (bb, c)" by (cases d)
  from scan_detections_Cons [OF Cons.prems [unfolded d]] obtain inside r where
    pi: "point_inside cv s c = Inr inside" and br: "bbox_intersection_ratio cv s bb = Inr r"
    and rest: "scan_detections cv s dets
          (if r > 0 \<or> inside
           then (max m r, if r > min_occupancy_ratio s then Suc n else n)
           else (m, n)) = Inr (m', n')"
    by blast
  have cr: "spec_counted_ratios cv s (d # dets) =
     (if r > 0 \<or> inside then r # spec_counted_ratios cv s dets else spec_counted_ratios cv s dets)"
    unfolding d by (rule counted_ratios_Cons [OF pi br])
  show ?case
  proof (cases "r > 0 \<or> inside")
    case True
    with rest have "scan_detections cv s dets
        (max m r, if r > min_occupancy_ratio s then Suc n else n) = Inr (m', n')"
      by simp
    then have "m' = Max (insert (max m r) (set (spec_counted_ratios cv s dets)))"
      by (rule Cons.IH)
    also have "\<dots> = Max (insert m (insert r (set (spec_counted_ratios cv s dets))))"
      by (rule Max_insert_max) simp
    finally show ?thesis using True cr by simp
  next
    case False
    with rest have "scan_detections cv s dets (m, n) = Inr (m', n')" by simp
    then have "m' = Max (insert m (set (spec_counted_ratios cv s dets)))" by (rule Cons.IH)
    then show ?thesis using False cr by simp
  qed
qed

lemma counted_ratios_nonneg:
  assumes "area_nonneg cv"
  shows "r \<in> set (spec_counted_ratios cv s dets) \<Longrightarrow> 0 \<le> r"
proof (induction dets)
  case Nil
  then show ?case by (simp add: counted_ratios_Nil)
next
  case (Cons d dets)
  obtain bb c where d: "d = (bb, c)" by (cases d)
  show ?case
  proof (cases "bbox_intersection_ratio cv s bb")
    case (Inl e)
    then have "spec_counted_ratios cv s (d # dets) = spec_counted_ratios cv s dets"
      unfolding d by (simp add: spec_counted_ratios_def del: bbox_intersection_ratio.simps)
    with Cons show ?thesis by simp
  next
    case (Inr r')
    note br = this
    then have r': "0 \<le> r'" by (rule bbox_intersection_ratio_nonneg [OF assms])
    show ?thesis
    proof (cases "point_inside cv s c")
      case (Inl e)
      then have "spec_counted_ratios cv s (d # dets) = spec_counted_ratios cv s dets"
        unfolding d using br
        by (simp add: spec_counted_ratios_def del: bbox_intersection_ratio.simps)
      with Cons show ?thesis by simp
    next
      case (Inr inside)
      from counted_ratios_Cons [OF Inr br, of dets] Cons r' d show ?thesis
        by (auto split: if_splits)
    qed
  qed
qed

lemma scan_detections_max_ratio:
  assumes "area_nonneg cv" and "scan_detections cv s dets (0, 0) = Inr (m', n')"
  shows "m' = spec_max_ratio cv s dets"
proof -
  have m: "m' = Max (insert 0 (set (spec_counted_ratios cv s dets)))"
    using scan_detections_max [OF assms(1) assms(2)] .
  show ?thesis
  proof (cases "spec_counted_ratios cv s dets = []")
    case True
    with m show ?thesis by (simp add: spec_max_ratio_def)
  next
    case False
    then have ne: "set (spec_counted_ratios cv s dets) \<noteq> {}" by simp
    have "Max (set (spec_counted_ratios cv s dets)) \<in> set (spec_counted_ratios cv s dets)"
      using ne by (intro Max_in) simp
    then have "0 \<le> Max (set (spec_counted_ratios cv s dets))"
      by (rule counted_ratios_nonneg [OF assms(1)])
    with m ne False show ?thesis by (simp add: spec_max_ratio_def max_def)
  qed
qed

lemma check_occupancy_Inr:
  "check_occupancy cv s bbs cs = Inr (d, s') \<Longrightarrow>
   \<exists>m n. scan_detections cv s (zip bbs cs) (0, 0) = Inr (m, n)
        \<and> (d, s') = push_sample (s\<lparr>vehicle_count := n\<rparr>) (raw_decision s m)"
  by (auto simp: check_occupancy_def split: sum.splits)

text \<open>
  Claim C4. For every region and detection batch on which \<open>check_occupancy\<close> returns,
  with \<open>max_ratio\<close> the maximum intersection ratio over the detections that have positive
  overlap or whose centroid is inside the region (0 when there is none), the raw
  decision that is handed to the smoothing step is \<open>max_ratio > 0\<close> when
  \<open>min_occupancy_ratio\<close> is 0 and \<open>max_ratio \<ge> min_occupancy_ratio\<close> otherwise. The area
  the library returns is never negative.
\<close>

theorem check_occupancy_raw_decision:
  assumes "area_nonneg cv"
      and "check_occupancy cv s bbs cs = Inr (d, s')"
  shows "raw_occupancy cv s (bbs, cs) =
           Inr (if min_occupancy_ratio s = 0 then spec_max_ratio cv s (zip bbs cs) > 0
                else spec_max_ratio cv s (zip bbs cs) \<ge> min_occupancy_ratio s)
       \<and> (\<exists>n. (d, s') = push_sample (s\<lparr>vehicle_count := n\<rparr>)
             (if min_occupancy_ratio s = 0 then spec_max_ratio cv s (zip bbs cs) > 0
              else spec_max_ratio cv s (zip bbs cs) \<ge> min_occupancy_ratio s))"
proof -
  from check_occupancy_Inr [OF assms(2)] obtain m n where
    sc: "scan_detections cv s (zip bbs cs) (0, 0) = Inr (m, n)"
    and ps: "(d, s') = push_sample (s\<lparr>vehicle_count := n\<rparr>) (raw_decision s m)"
    by blast
  have m: "m = spec_max_ratio cv s (zip bbs cs)"
    using scan_detections_max_ratio [OF assms(1) sc] .
  have "raw_occupancy cv s (bbs, cs) = Inr (raw_decision s m)"
    by (simp add: raw_occupancy_def sc)
  with ps m show ?thesis unfolding raw_decision_def by blast
qed

lemma rect_library_area_nonneg: "area_nonneg rect_library"
  by (auto simp: area_nonneg_def rect_library_def)

lemma square_half_covered:
  "check_occupancy rect_library square_space [(0, 0, 0, 1)] [(0, 0)] =
    Inr (True, square_space\<lparr>vehicle_count := 1, confidence_smoothing := [1]\<rparr>)"
  by code_simp

lemma square_half_ratio:
  "spec_max_ratio rect_library square_space (zip [(0, 0, 0, 1)] [(0, 0)]) = 1 / 2"
  by code_simp

lemma square_space_ratio: "min_occupancy_ratio square_space = 2 / 10"
  by (simp add: square_space_def init_ParkingSpace_def)

theorem check_occupancy_raw_decision_witness:
  "raw_occupancy rect_library square_space ([(0, 0, 0, 1)], [(0, 0)]) = Inr True"
proof -
  have "raw_occupancy rect_library square_space ([(0, 0, 0, 1)], [(0, 0)]) =
     Inr (if min_occupancy_ratio square_space = 0
          then spec_max_ratio rect_library square_space (zip [(0, 0, 0, 1)] [(0, 0)]) > 0
          else spec_max_ratio rect_library square_space (zip [(0, 0, 0, 1)] [(0, 0)])
                 \<ge> min_occupancy_ratio square_space)"
    using check_occupancy_raw_decision [OF rect_library_area_nonneg square_half_covered]
    by (rule conjunct1)
  then show ?thesis
    unfolding square_half_ratio square_space_ratio by simp
qed

subsection \<open>The smoothing window\<close>

lemma last5_length: "length (last5 xs) \<le> 5"
  by (simp add: last5_def)

lemma last5_short: "length xs \<le> 5 \<Longrightarrow> last5 xs = xs"
  by (simp add: last5_def)

lemma last5_append: "last5 (last5 xs @ ys) = last5 (xs @ ys)"
proof (cases "length xs \<le> 5")
  case True
  then show ?thesis by (simp add: last5_def)
next
  case False
  then show ?thesis by (simp add: last5_def add.commute)
qed

lemma last5_snoc:
  "length w \<le> 5 \<Longrightarrow> last5 (w @ [x]) = (if length (w @ [x]) > 5 then tl (w @ [x]) else w @ [x])"
proof (cases "length w = 5")
  case True
  then have "w \<noteq> []" by auto
  with True show ?thesis by (simp add: last5_def drop_Suc)
next
  case False
  assume "length w \<le> 5"
  with False show ?thesis by (simp add: last5_def)
qed

lemma push_sample_window:
  assumes "smoothing_window s = 5" and "length (confidence_smoothing s) \<le> 5"
  shows "confidence_smoothing (snd (push_sample s b)) = last5 (confidence_smoothing s @ [sample b])"
    and "fst (push_sample s b) =
          (if length (last5 (confidence_smoothing s @ [sample b])) < 3 then b
           else mean (last5 (confidence_smoothing s @ [sample b])) \<ge> 1 / 2)"
    and "smoothing_window (snd (push_sample s b)) = 5"
    and "polygon (snd (push_sample s b)) = polygon s"
    and "min_occupancy_ratio (snd (push_sample s b)) = min_occupancy_ratio s"
  using assms last5_snoc [OF assms(2), of "sample b"]
  by (auto simp: push_sample_def Let_def sample_def)

lemma bbox_intersection_ratio_cong:
  assumes "polygon s1 = polygon s2"
  shows "bbox_intersection_ratio cv s1 bb = bbox_intersection_ratio cv s2 bb"
proof -
  obtain x1 y1 x2 y2 where bb: "bb = (x1, y1, x2, y2)" by (cases bb) auto
  show ?thesis
    unfolding bb bbox_intersection_ratio.simps get_area_def assms ..
qed

lemma point_inside_cong:
  "polygon s1 = polygon s2 \<Longrightarrow> point_inside cv s1 c = point_inside cv s2 c"
  by (simp add: point_inside_def)

lemma scan_detections_cong:
  assumes "polygon s1 = polygon s2" and "min_occupancy_ratio s1 = min_occupancy_ratio s2"
  shows "scan_detections cv s1 dets acc = scan_detections cv s2 dets acc"
proof (induction dets arbitrary: acc)
  case Nil
  show ?case by simp
next
  case (Cons d dets)
  obtain bb c where d: "d = (bb, c)" by (cases d)
  obtain m n where acc: "acc = (m, n)" by (cases acc)
  show ?case
    unfolding d acc
    by (simp del: bbox_intersection_ratio.simps
          add: bbox_intersection_ratio_cong [OF assms(1)] point_inside_cong [OF assms(1)]
            assms(2) Cons.IH
          split: sum.splits)
qed

lemma raw_occupancy_cong:
  assumes "polygon s1 = polygon s2" and "min_occupancy_ratio s1 = min_occupancy_ratio s2"
  shows "raw_occupancy cv s1 frame = raw_occupancy cv s2 frame"
  unfolding raw_occupancy_def scan_detections_cong [OF assms] raw_decision_def assms(2) ..

lemma check_occupancy_step:
  assumes "check_occupancy cv s bbs cs = Inr (d, s1)"
      and "smoothing_window s = 5" and "length (confidence_smoothing s) \<le> 5"
  shows "\<exists>raw. raw_occupancy cv s (bbs, cs) = Inr raw
           \<and> confidence_smoothing s1 = last5 (confidence_smoothing s @ [sample raw])
           \<and> d = (if length (last5 (confidence_smoothing s @ [sample raw])) < 3 then raw
                  else mean (last5 (confidence_smoothing s @ [sample raw])) \<ge> 1 / 2)
           \<and> smoothing_window s1 = 5 \<and> polygon s1 = polygon s
           \<and> min_occupancy_ratio s1 = min_occupancy_ratio s"
proof -
  from check_occupancy_Inr [OF assms(1)] obtain m n where
    sc: "scan_detections cv s (zip bbs cs) (0, 0) = Inr (m, n)"
    and ps: "(d, s1) = push_sample (s\<lparr>vehicle_count := n\<rparr>) (raw_decision s m)"
    by blast
  let ?s = "s\<lparr>vehicle_count := n\<rparr>"
  have w: "smoothing_window ?s = 5" "length (confidence_smoothing ?s) \<le> 5"
    using assms(2,3) by simp_all
  have d: "d = fst (push_sample ?s (raw_decision s m))"
    and s1: "s1 = snd (push_sample ?s (raw_decision s m))"
    using ps by (metis fst_conv, metis snd_conv)
  have "raw_occupancy cv s (bbs, cs) = Inr (raw_decision s m)"
    by (simp add: raw_occupancy_def sc)
  then show ?thesis
    using push_sample_window [OF w, of "raw_decision s m"] d s1 by simp
qed


lemma check_occupancy_seq_Cons:
  "check_occupancy_seq cv s ((bbs, cs) # frames) = Inr (ds, s') \<Longrightarrow>
   \<exists>d s1 ds'. check_occupancy cv s bbs cs = Inr (d, s1)
      \<and> check_occupancy_seq cv s1 frames = Inr (ds', s') \<and> ds = d # ds'"
  by (auto split: sum.splits)

text \<open>
  Claim C3. For every region and every run of per-frame calls of \<open>check_occupancy\<close>
  that return, starting from a window of at most 5 samples (it is empty at construction):
  after each call the window holds the last five, or fewer, of the samples pushed so
  far in their order, the oldest evicted first, hence at most 5; the decision of a frame
  is the raw decision of that frame while the window, the sample pushed, holds fewer than
  3 samples, and \<open>mean(window) >= 0.5\<close> from 3 samples on.
\<close>

theorem check_occupancy_seq_window:
  assumes "check_occupancy_seq cv s frames = Inr (ds, s')"
      and "smoothing_window s = 5" and "length (confidence_smoothing s) \<le> 5"
  shows "\<exists>raws. map (raw_occupancy cv s) frames = map Inr raws
           \<and> length ds = length frames
           \<and> confidence_smoothing s' = last5 (confidence_smoothing s @ map sample raws)
           \<and> length (confidence_smoothing s') \<le> 5
           \<and> (\<forall>i < length frames.
                 ds ! i =
                   (if length (last5 (confidence_smoothing s @ map sample (take (Suc i) raws))) < 3
                    then raws ! i
                    else mean (last5 (confidence_smoothing s @ map sample (take (Suc i) raws)))
                           \<ge> 1 / 2))"
  using assms
proof (induction frames arbitrary: s ds)
  case Nil
  then show ?case by (simp add: last5_short)
next
  case (Cons f frames)
  obtain bbs cs where f: "f = (bbs, cs)" by (cases f)
  from check_occupancy_seq_Cons [OF Cons.prems(1) [unfolded f]] obtain d s1 ds' where
    c1: "check_occupancy cv s bbs cs = Inr (d, s1)"
    and c2: "check_occupancy_seq cv s1 frames = Inr (ds', s')" and ds: "ds = d # ds'"
    by blast
  from check_occupancy_step [OF c1 Cons.prems(2) Cons.prems(3)] obtain raw where
    r: "raw_occupancy cv s (bbs, cs) = Inr raw"
    and w1: "confidence_smoothing s1 = last5 (confidence_smoothing s @ [sample raw])"
    and d: "d = (if length (last5 (confidence_smoothing s @ [sample raw])) < 3 then raw
                 else mean (last5 (confidence_smoothing s @ [sample raw])) \<ge> 1 / 2)"
    and sw: "smoothing_window s1 = 5" and po: "polygon s1 = polygon s"
    and mr: "min_occupancy_ratio s1 = min_occupancy_ratio s"
    by blast
  have len1: "length (confidence_smoothing s1) \<le> 5" unfolding w1 by (rule last5_length)
  from Cons.IH [OF c2 sw len1] obtain raws where
    m: "map (raw_occupancy cv s1) frames = map Inr raws"
    and l: "length ds' = length frames"
    and w: "confidence_smoothing s' = last5 (confidence_smoothing s1 @ map sample raws)"
    and dec: "\<forall>i < length frames.
                 ds' ! i =
                   (if length (last5 (confidence_smoothing s1 @ map sample (take (Suc i) raws))) < 3
                    then raws ! i
                    else mean (last5 (confidence_smoothing s1 @ map sample (take (Suc i) raws)))
                           \<ge> 1 / 2)"
    by blast
  have cong: "raw_occupancy cv s1 = raw_occupancy cv s"
    using raw_occupancy_cong [OF po mr] by (intro ext)
  have win: "\<And>ys. last5 (confidence_smoothing s1 @ ys)
                  = last5 (confidence_smoothing s @ sample raw # ys)"
    unfolding w1 using last5_append [of "confidence_smoothing s @ [sample raw]"] by simp
  have "map (raw_occupancy cv s) (f # frames) = map Inr (raw # raws)"
    using m r f cong by simp
  moreover have "length ds = length (f # frames)" using l ds by simp
  moreover have "confidence_smoothing s' = last5 (confidence_smoothing s @ map sample (raw # raws))"
    using w win by simp
  moreover have "length (confidence_smoothing s') \<le> 5" unfolding w by (rule last5_length)
  moreover have "\<forall>i < length (f # frames).
                 ds ! i =
                   (if length (last5 (confidence_smoothing s
                          @ map sample (take (Suc i) (raw # raws)))) < 3
                    then (raw # raws) ! i
                    else mean (last5 (confidence_smoothing s
                          @ map sample (take (Suc i) (raw # raws)))) \<ge> 1 / 2)"
  proof (intro allI impI)
    fix i assume i: "i < length (f # frames)"
    show "ds ! i =
                   (if length (last5 (confidence_smoothing s
                          @ map sample (take (Suc i) (raw # raws)))) < 3
                    then (raw # raws) ! i
                    else mean (last5 (confidence_smoothing s
                          @ map sample (take (Suc i) (raw # raws)))) \<ge> 1 / 2)"
    proof (cases i)
      case 0
      then show ?thesis using d ds by simp
    next
      case (Suc j)
      with i have "j < length frames" by simp
      with dec have "ds' ! j =
                   (if length (last5 (confidence_smoothing s1 @ map sample (take (Suc j) raws))) < 3
                    then raws ! j
                    else mean (last5 (confidence_smoothing s1 @ map sample (take (Suc j) raws)))
                           \<ge> 1 / 2)" by blast
      then show ?thesis unfolding win using Suc ds by simp
    qed
  qed
  ultimately show ?case by blast
qed

lemma scenario_run:
  "check_occupancy_seq rect_library square_space scenario_frames =
     Inr ([True, False, True],
          square_space\<lparr>vehicle_count := 1, confidence_smoothing := [1, 0, 1]\<rparr>)"
  by code_simp

lemma scenario_raws:
  "map (raw_occupancy rect_library square_space) scenario_frames = map Inr [True, False, True]"
  by code_simp

lemma square_space_window:
  "smoothing_window square_space = 5" "length (confidence_smoothing square_space) \<le> 5"
  "confidence_smoothing square_space = []"
  by (simp_all add: square_space_def init_ParkingSpace_def)

theorem check_occupancy_seq_window_witness:
  "confidence_smoothing (square_space\<lparr>vehicle_count := 1, confidence_smoothing := [1, 0, 1]\<rparr>)
     = last5 (map sample [True, False, True])
   \<and> [True, False, True] ! 2 = (mean (last5 (map sample [True, False, True])) \<ge> 1 / 2)"
proof -
  from check_occupancy_seq_window
         [OF scenario_run square_space_window(1) square_space_window(2)]
  obtain raws where
    m: "map (raw_occupancy rect_library square_space) scenario_frames = map Inr raws"
    and w: "confidence_smoothing
              (square_space\<lparr>vehicle_count := 1, confidence_smoothing := [1, 0, 1]\<rparr>)
            = last5 (confidence_smoothing square_space @ map sample raws)"
    and dec: "\<forall>i < length scenario_frames.
                 [True, False, True] ! i =
                   (if length (last5 (confidence_smoothing square_space
                            @ map sample (take (Suc i) raws))) < 3
                    then raws ! i
                    else mean (last5 (confidence_smoothing square_space
                            @ map sample (take (Suc i) raws))) \<ge> 1 / 2)"
    by blast
  from m scenario_raws
  have "map (Inr :: bool \<Rightarrow> error + bool) raws = map Inr [True, False, True]" by simp
  then have raws: "raws = [True, False, True]"
    by (rule map_injective) simp
  have l: "(2::nat) < length scenario_frames" by (simp add: scenario_frames_def)
  from dec [rule_format, OF l] w show ?thesis
    unfolding raws square_space_window(3)
    by (simp add: last5_def numeral_2_eq_2 numeral_3_eq_3)
qed

subsection \<open>The coordinator\<close>

lemma push_sample_frame:
  "state (snd (push_sample s b)) = state s"
  "state_history (snd (push_sample s b)) = state_history s"
  "space_id (snd (push_sample s b)) = space_id s"
  by (simp_all add: push_sample_def Let_def)

lemma check_occupancy_frame:
  assumes "check_occupancy cv s bbs cs = Inr (d, s1)"
  shows "state s1 = state s" and "state_history s1 = state_history s"
    and "space_id s1 = space_id s"
proof -
  from check_occupancy_Inr [OF assms] obtain m n where
    ps: "(d, s1) = push_sample (s\<lparr>vehicle_count := n\<rparr>) (raw_decision s m)"
    by blast
  then have s1: "s1 = snd (push_sample (s\<lparr>vehicle_count := n\<rparr>) (raw_decision s m))"
    by (metis snd_conv)
  show "state s1 = state s" "state_history s1 = state_history s" "space_id s1 = space_id s"
    unfolding s1 by (simp_all add: push_sample_frame)
qed

lemma update_state_changed:
  "state_changed s (fst (update_state clk k s b ts)) = logs_transition s b"
  by (auto simp: update_state_fields state_changed_def logs_transition_def)

lemma update_state_logged:
  "logged_iff_changed s (fst (update_state clk k s b ts))"
  unfolding logged_iff_changed_def update_state_changed
  by (simp add: update_state_fields)

lemma update_state_space_id:
  "space_id (fst (update_state clk k s b ts)) = space_id s"
  by (simp add: update_state_fields)

lemma update_spaces_Cons:
  assumes "update_spaces cv clk k (space # rest) bbs cs ts = Inr (evs, sps', k')"
  shows "\<exists>d sp1 later rest' k2.
           check_occupancy cv space bbs cs = Inr (d, sp1)
         \<and> update_spaces cv clk k2 rest bbs cs ts = Inr (later, rest', k')
         \<and> sps' = fst (update_state clk k sp1 d ts) # rest'
         \<and> evs = (if state_changed sp1 (fst (update_state clk k sp1 d ts))
                  then [transition_event
                          (case ts of Some t \<Rightarrow> t
                           | None \<Rightarrow> clk (snd (update_state clk k sp1 d ts)))
                          sp1 (fst (update_state clk k sp1 d ts))]
                  else []) @ later"
proof (cases "check_occupancy cv space bbs cs")
  case (Inl e)
  with assms show ?thesis by simp
next
  case (Inr r)
  obtain d sp1 where r: "r = (d, sp1)" by (cases r)
  obtain sp2 k1 where u: "update_state clk k sp1 d ts = (sp2, k1)"
    by (cases "update_state clk k sp1 d ts")
  have sid: "space_id sp2 = space_id sp1"
    using update_state_space_id [of clk k sp1 d ts] u by simp
  show ?thesis
  proof (cases "state sp1 \<noteq> state sp2 \<and> state sp1 \<noteq> UNKNOWN")
    case True
    show ?thesis
    proof (cases ts)
      case None
      with assms Inr r u True sid show ?thesis
        by (auto simp: Let_def state_changed_def transition_event_def split: sum.splits)
    next
      case (Some t)
      with assms Inr r u True sid show ?thesis
        by (auto simp: Let_def state_changed_def transition_event_def split: sum.splits)
    qed
  next
    case False
    with assms Inr r u show ?thesis
      by (fastforce simp: Let_def state_changed_def split: sum.splits)
  qed
qed

lemma events_of_Cons:
  "events_of t (s # before) (s' # after) =
     (if state_changed s s' then [transition_event t s s'] else []) @ events_of t before after"
  by (simp add: events_of_def)

lemma untimed_event: "untimed (transition_event t s s') = transition_event 0 s s'"
  by (simp add: untimed_def transition_event_def)

lemma update_spaces_events:
  "update_spaces cv clk k sps bbs cs ts = Inr (evs, sps', k') \<Longrightarrow>
     length sps' = length sps
   \<and> map untimed evs = events_of 0 sps sps'
   \<and> (\<forall>t. ts = Some t \<longrightarrow> evs = events_of t sps sps')
   \<and> list_all2 logged_iff_changed sps sps'
   \<and> map space_id sps' = map space_id sps"
proof (induction sps arbitrary: k evs sps')
  case Nil
  then show ?case by (simp add: events_of_def)
next
  case (Cons space rest)
  from update_spaces_Cons [OF Cons.prems] obtain d sp1 later rest' k2 where
    c: "check_occupancy cv space bbs cs = Inr (d, sp1)"
    and u: "update_spaces cv clk k2 rest bbs cs ts = Inr (later, rest', k')"
    and s': "sps' = fst (update_state clk k sp1 d ts) # rest'"
    and e: "evs = (if state_changed sp1 (fst (update_state clk k sp1 d ts))
                  then [transition_event
                          (case ts of Some t \<Rightarrow> t
                           | None \<Rightarrow> clk (snd (update_state clk k sp1 d ts)))
                          sp1 (fst (update_state clk k sp1 d ts))]
                  else []) @ later"
    by blast
  let ?sp2 = "fst (update_state clk k sp1 d ts)"
  note fr = check_occupancy_frame [OF c]
  have ch: "\<And>x. state_changed space x = state_changed sp1 x"
    by (simp add: state_changed_def fr)
  have ev: "\<And>t x. transition_event t space x = transition_event t sp1 x"
    by (simp add: transition_event_def fr)
  have lg: "logged_iff_changed space ?sp2"
    using update_state_logged [of sp1 clk k d ts]
    by (simp add: logged_iff_changed_def state_changed_def fr)
  have sid: "space_id ?sp2 = space_id space"
    by (simp add: update_state_space_id fr)
  from Cons.IH [OF u] have ih:
    "length rest' = length rest" "map untimed later = events_of 0 rest rest'"
    "\<forall>t. ts = Some t \<longrightarrow> later = events_of t rest rest'"
    "list_all2 logged_iff_changed rest rest'" "map space_id rest' = map space_id rest"
    by blast+
  show ?case
    unfolding s' e
    using ih lg sid by (auto simp: events_of_Cons ch ev untimed_event)
qed

text \<open>
  Claim C9. For every call of \<open>update_all\<close> that returns, the returned sequence holds
  exactly one event (region id, old state, new state, timestamp) for each region whose
  state changed on this call from a state other than \<open>UNKNOWN\<close>, in the order of the
  region list; a region appended to its transition log under that same condition, and
  under no other. The timestamp of the events is the one passed to the call.
\<close>

theorem update_all_events:
  assumes "update_all cv clk k mgr bbs cs classes ts = Inr (evs, mgr', k')"
  shows "length (spaces mgr') = length (spaces mgr)
       \<and> map untimed evs = events_of 0 (spaces mgr) (spaces mgr')
       \<and> (\<forall>t. ts = Some t \<longrightarrow> evs = events_of t (spaces mgr) (spaces mgr'))
       \<and> list_all2 logged_iff_changed (spaces mgr) (spaces mgr')
       \<and> map space_id (spaces mgr') = map space_id (spaces mgr)"
proof -
  from assms obtain sps where
    u: "update_spaces cv clk k (spaces mgr) bbs cs ts = Inr (evs, sps, k')"
    and m: "mgr' = mgr\<lparr>spaces := sps\<rparr>"
    by (auto simp: update_all_def split: sum.splits)
  from update_spaces_events [OF u] show ?thesis unfolding m by simp
qed

lemma two_regions_run:
  "update_all rect_library (\<lambda>n. 0) 0
     (init_ParkingSpaceManager [square_space\<lparr>state := OCCUPIED\<rparr>, square_space\<lparr>space_id := 2\<rparr>])
     [] [] [] (Some 7000000)
   = Inr ([\<lparr> sc_space_id = 1, sc_old_state = ''occupied'', sc_new_state = ''empty'',
             sc_timestamp = 7000000 \<rparr>],
          \<lparr> spaces =
              [square_space\<lparr>state := EMPTY, previous_state := OCCUPIED,
                 state_history := [(7000000, EMPTY)], last_change_time := Some 7000000,
                 confidence_smoothing := [0]\<rparr>,
               square_space\<lparr>space_id := 2, state := EMPTY, confidence_smoothing := [0]\<rparr>],
            total_spaces = 2 \<rparr>, 0)"
  by code_simp

theorem update_all_events_witness:
  "events_of 7000000
     [square_space\<lparr>state := OCCUPIED\<rparr>, square_space\<lparr>space_id := 2\<rparr>]
     [square_space\<lparr>state := EMPTY, previous_state := OCCUPIED,
        state_history := [(7000000, EMPTY)], last_change_time := Some 7000000,
        confidence_smoothing := [0]\<rparr>,
      square_space\<lparr>space_id := 2, state := EMPTY, confidence_smoothing := [0]\<rparr>]
   = [\<lparr> sc_space_id = 1, sc_old_state = ''occupied'', sc_new_state = ''empty'',
        sc_timestamp = 7000000 \<rparr>]"
  using update_all_events [OF two_regions_run]
  by (simp add: init_ParkingSpaceManager_def)

subsection \<open>Snapshots of the counts\<close>

lemma count_state_total:
  "count_state EMPTY sps + count_state OCCUPIED sps + count_state UNKNOWN sps = length sps"
proof (induction sps)
  case Nil
  show ?case by (simp add: count_state_def)
next
  case (Cons s sps)
  then show ?case by (cases "state s") (simp_all add: count_state_def)
qed

lemma get_counts_count_state:
  "get_counts mgr = (int (count_state EMPTY (spaces mgr)), int (count_state OCCUPIED (spaces mgr)))"
  by (simp add: get_counts_def count_state_def)

lemma update_state_state: "state (fst (update_state clk k s b ts)) = target_state b"
  by (simp add: update_state_fields)

text \<open>A returning update leaves no region \<open>UNKNOWN\<close>: each one was just classified.\<close>

lemma update_spaces_classified:
  "update_spaces cv clk k sps bbs cs ts = Inr (evs, sps', k') \<Longrightarrow>
     count_state UNKNOWN sps' = 0 \<and> length sps' = length sps"
proof (induction sps arbitrary: k evs sps')
  case Nil
  then show ?case by (simp add: count_state_def)
next
  case (Cons space rest)
  from update_spaces_Cons [OF Cons.prems] obtain d sp1 later rest' k2 where
    u: "update_spaces cv clk k2 rest bbs cs ts = Inr (later, rest', k')"
    and s': "sps' = fst (update_state clk k sp1 d ts) # rest'"
    by blast
  from Cons.IH [OF u] have "count_state UNKNOWN rest' = 0" "length rest' = length rest"
    by simp_all
  then show ?case
    unfolding s' by (simp add: count_state_def update_state_state target_state_def)
qed

lemma update_all_classified:
  assumes "update_all cv clk k mgr bbs cs classes ts = Inr (evs, mgr', k')"
  shows "count_state UNKNOWN (spaces mgr') = 0"
    and "length (spaces mgr') = length (spaces mgr)"
    and "total_spaces mgr' = total_spaces mgr"
proof -
  from assms obtain sps where
    u: "update_spaces cv clk k (spaces mgr) bbs cs ts = Inr (evs, sps, k')"
    and m: "mgr' = mgr\<lparr>spaces := sps\<rparr>"
    by (auto simp: update_all_def split: sum.splits)
  from update_spaces_classified [OF u]
  show "count_state UNKNOWN (spaces mgr') = 0" "length (spaces mgr') = length (spaces mgr)"
    "total_spaces mgr' = total_spaces mgr"
    unfolding m by simp_all
qed

lemma log_state_change_metrics:
  "log_state_change ap lg sid old new t vc cf du = Inr lg' \<Longrightarrow>
   metrics_history lg' = metrics_history lg"
  by (auto simp: log_state_change_def Let_def split: option.splits if_splits)

lemma log_state_changes_metrics:
  "log_state_changes ap lg sps evs = Inr lg' \<Longrightarrow> metrics_history lg' = metrics_history lg"
proof (induction evs arbitrary: lg)
  case Nil
  then show ?case by simp
next
  case (Cons ev evs)
  from Cons.prems obtain space :: ParkingSpace and lg1 where
    l1: "log_state_change ap lg (sc_space_id ev) (sc_old_state ev) (sc_new_state ev)
           (sc_timestamp ev) None None (Some (occupancy_duration space)) = Inr lg1"
    and l2: "log_state_changes ap lg1 sps evs = Inr lg'"
    by (auto split: option.splits sum.splits)
  from Cons.IH [OF l2] log_state_change_metrics [OF l1] show ?case by simp
qed

lemma process_frame_Inr:
  assumes "process_frame cv ap clk k mgr lg bbs cs classes ts = Inr (mgr', lg', k')"
  shows "\<exists>evs lg1 k1.
           update_all cv clk k1 mgr bbs cs classes (Some (call_time clk k ts))
             = Inr (evs, mgr', k')
         \<and> log_state_changes ap lg (spaces mgr') evs = Inr lg1
         \<and> lg' = log_metrics lg1 (call_time clk k ts)
                   (fst (get_counts mgr')) (snd (get_counts mgr'))"
  using assms
  by (cases ts)
     (auto simp: process_frame_def call_time_def Let_def split: sum.splits prod.splits)

lemma classified_counts:
  assumes "count_state UNKNOWN (spaces mgr) = 0" and "total_spaces mgr = length (spaces mgr)"
  shows "fst (get_counts mgr) + snd (get_counts mgr) = int (total_spaces mgr)"
  using assms count_state_total [of "spaces mgr"] by (simp add: get_counts_count_state)

text \<open>The snapshot of a frame that \<open>process_frame\<close> processes, for a coordinator whose
  \<open>total_spaces\<close> is the number of its regions, as the constructor sets it.\<close>

lemma process_frame_last_snapshot:
  assumes "process_frame cv ap clk k mgr lg bbs cs classes ts = Inr (mgr', lg', k')"
      and "total_spaces mgr = length (spaces mgr)"
  shows "count_state UNKNOWN (spaces mgr') = 0"
    and "total_spaces mgr' = length (spaces mgr')"
    and "metrics_history lg' = metrics_history lg @ [last_snapshot lg']"
    and "m_total (last_snapshot lg') = int (total_spaces mgr')"
    and "m_occupancy_rate (last_snapshot lg') = get_occupancy_rate mgr'"
proof -
  from process_frame_Inr [OF assms(1)] obtain evs lg1 k1 where
    u: "update_all cv clk k1 mgr bbs cs classes (Some (call_time clk k ts))
          = Inr (evs, mgr', k')"
    and l: "log_state_changes ap lg (spaces mgr') evs = Inr lg1"
    and lg': "lg' = log_metrics lg1 (call_time clk k ts)
                      (fst (get_counts mgr')) (snd (get_counts mgr'))"
    by blast
  note c = update_all_classified [OF u]
  show un: "count_state UNKNOWN (spaces mgr') = 0" by (rule c(1))
  show inv: "total_spaces mgr' = length (spaces mgr')" using c(2,3) assms(2) by simp
  have mh: "metrics_history lg1 = metrics_history lg" by (rule log_state_changes_metrics [OF l])
  show "metrics_history lg' = metrics_history lg @ [last_snapshot lg']"
    unfolding lg' last_snapshot_def by (simp add: log_metrics_def mh)
  have tot: "fst (get_counts mgr') + snd (get_counts mgr') = int (total_spaces mgr')"
    by (rule classified_counts [OF un inv])
  show "m_total (last_snapshot lg') = int (total_spaces mgr')"
    unfolding lg' last_snapshot_def by (simp add: log_metrics_def tot)
  show "m_occupancy_rate (last_snapshot lg') = get_occupancy_rate mgr'"
    unfolding lg' last_snapshot_def by (simp add: log_metrics_def tot get_occupancy_rate_def)
qed

text \<open>
  Claim C10, as stated, ends: regions still \<open>UNKNOWN\<close> are excluded by \<open>get_counts\<close>, so
  the snapshot's total can be smaller than \<open>total_spaces\<close> and the snapshot's rate can
  differ from the rate of the coordinator. No snapshot of the program is so. A
  coordinator fresh from its constructor, both regions \<open>UNKNOWN\<close>, processes its first
  frame: the snapshot has total 2, which is \<open>total_spaces\<close>, and the rate of the
  coordinator. And no frame that \<open>process_frame\<close> processes, from any regions, any logger
  and any detections, appends a snapshot whose total is below \<open>total_spaces\<close> or whose
  rate is not the coordinator's.
\<close>

theorem snapshot_below_total_counterexample:
  "count_state UNKNOWN (spaces two_regions) = 2
   \<and> (case process_frame rect_library no_file (\<lambda>n. 0) 0 two_regions init_ParkingLogger
             [(0, 0, 2, 2)] [(1, 1)] [''car''] (Some 7000000) of
         Inl e \<Rightarrow> False
       | Inr (mgr', lg', k') \<Rightarrow>
           total_spaces mgr' = 2
         \<and> m_total (last_snapshot lg') = 2
         \<and> m_occupancy_rate (last_snapshot lg') = 1
         \<and> get_occupancy_rate mgr' = 1)
   \<and> \<not> (\<exists>cv ap clk k sps lg bbs cs classes ts mgr' lg' k'.
           process_frame cv ap clk k (init_ParkingSpaceManager sps) lg bbs cs classes ts
             = Inr (mgr', lg', k')
         \<and> (m_total (last_snapshot lg') < int (total_spaces mgr')
            \<or> m_occupancy_rate (last_snapshot lg') \<noteq> get_occupancy_rate mgr'))"
proof (intro conjI)
  show "count_state UNKNOWN (spaces two_regions) = 2"
    by (simp add: two_regions_def init_ParkingSpaceManager_def count_state_def square_space_def
          init_ParkingSpace_def)
  show "case process_frame rect_library no_file (\<lambda>n. 0) 0 two_regions init_ParkingLogger
             [(0, 0, 2, 2)] [(1, 1)] [''car''] (Some 7000000) of
         Inl e \<Rightarrow> False
       | Inr (mgr', lg', k') \<Rightarrow>
           total_spaces mgr' = 2
         \<and> m_total (last_snapshot lg') = 2
         \<and> m_occupancy_rate (last_snapshot lg') = 1
         \<and> get_occupancy_rate mgr' = 1"
    by code_simp
  show "\<not> (\<exists>cv ap clk k sps lg bbs cs classes ts mgr' lg' k'.
           process_frame cv ap clk k (init_ParkingSpaceManager sps) lg bbs cs classes ts
             = Inr (mgr', lg', k')
         \<and> (m_total (last_snapshot lg') < int (total_spaces mgr')
            \<or> m_occupancy_rate (last_snapshot lg') \<noteq> get_occupancy_rate mgr'))"
  proof
    assume "\<exists>cv ap clk k sps lg bbs cs classes ts mgr' lg' k'.
           process_frame cv ap clk k (init_ParkingSpaceManager sps) lg bbs cs classes ts
             = Inr (mgr', lg', k')
         \<and> (m_total (last_snapshot lg') < int (total_spaces mgr')
            \<or> m_occupancy_rate (last_snapshot lg') \<noteq> get_occupancy_rate mgr')"
    then obtain cv ap clk k sps lg bbs cs classes ts mgr' lg' k' where
      pf: "process_frame cv ap clk k (init_ParkingSpaceManager sps) lg bbs cs classes ts
             = Inr (mgr', lg', k')"
      and bad: "m_total (last_snapshot lg') < int (total_spaces mgr')
            \<or> m_occupancy_rate (last_snapshot lg') \<noteq> get_occupancy_rate mgr'"
      by blast
    have inv: "total_spaces (init_ParkingSpaceManager sps)
                 = length (spaces (init_ParkingSpaceManager sps))"
      by (simp add: init_ParkingSpaceManager_def)
    from process_frame_last_snapshot(4,5) [OF pf inv] bad show False by simp
  qed
qed

text \<open>
  Claim C10, amended. For every call \<open>log_metrics(timestamp, empty_count,
  occupied_count)\<close> the snapshot appended has \<open>total = empty_count + occupied_count\<close> and
  \<open>occupancy_rate = occupied_count / (empty_count + occupied_count)\<close> when the sum is
  positive, 0.0 otherwise. \<open>get_counts\<close> counts the regions that are \<open>EMPTY\<close> and those
  that are \<open>OCCUPIED\<close>. The program logs a snapshot in \<open>process_frame\<close> only, after
  \<open>update_all\<close> has classified every region: for every frame processed, by a coordinator
  whose \<open>total_spaces\<close> is the number of its regions, no region is \<open>UNKNOWN\<close> when the
  counts are taken, the one snapshot appended has \<open>total = total_spaces\<close>, and its rate
  is the coordinator's \<open>occupied / total_spaces\<close>.
\<close>

theorem process_frame_snapshot:
  "metrics_history (log_metrics lg t ec oc) =
     metrics_history lg @
       [\<lparr> m_timestamp = t, m_empty = ec, m_occupied = oc, m_total = ec + oc,
          m_occupancy_rate = (if ec + oc > 0 then real_of_int oc / real_of_int (ec + oc) else 0) \<rparr>]
   \<and> get_counts mgr =
       (int (count_state EMPTY (spaces mgr)), int (count_state OCCUPIED (spaces mgr)))
   \<and> (process_frame cv ap clk k mgr0 lg0 bbs cs classes ts = Inr (mgr', lg', k')
        \<and> total_spaces mgr0 = length (spaces mgr0)
      \<longrightarrow> count_state UNKNOWN (spaces mgr') = 0
        \<and> total_spaces mgr' = length (spaces mgr')
        \<and> metrics_history lg' = metrics_history lg0 @ [last_snapshot lg']
        \<and> m_total (last_snapshot lg') = int (total_spaces mgr')
        \<and> m_occupancy_rate (last_snapshot lg') = get_occupancy_rate mgr')"
proof (intro conjI impI)
  show "metrics_history (log_metrics lg t ec oc) =
     metrics_history lg @
       [\<lparr> m_timestamp = t, m_empty = ec, m_occupied = oc, m_total = ec + oc,
          m_occupancy_rate = (if ec + oc > 0 then real_of_int oc / real_of_int (ec + oc) else 0) \<rparr>]"
    by (simp add: log_metrics_def)
  show "get_counts mgr =
       (int (count_state EMPTY (spaces mgr)), int (count_state OCCUPIED (spaces mgr)))"
    by (rule get_counts_count_state)
next
  assume a: "process_frame cv ap clk k mgr0 lg0 bbs cs classes ts = Inr (mgr', lg', k')
        \<and> total_spaces mgr0 = length (spaces mgr0)"
  note s = process_frame_last_snapshot [OF conjunct1 [OF a] conjunct2 [OF a]]
  show "count_state UNKNOWN (spaces mgr') = 0" by (rule s(1))
  show "total_spaces mgr' = length (spaces mgr')" by (rule s(2))
  show "metrics_history lg' = metrics_history lg0 @ [last_snapshot lg']" by (rule s(3))
  show "m_total (last_snapshot lg') = int (total_spaces mgr')" by (rule s(4))
  show "m_occupancy_rate (last_snapshot lg') = get_occupancy_rate mgr'" by (rule s(5))
qed

lemma two_regions_frame:
  "process_frame rect_library no_file (\<lambda>n. 0) 0
     (init_ParkingSpaceManager [square_space\<lparr>state := OCCUPIED\<rparr>, square_space\<lparr>space_id := 2\<rparr>])
     init_ParkingLogger [] [] [] (Some 7000000)
   = Inr (\<lparr> spaces =
              [square_space\<lparr>state := EMPTY, previous_state := OCCUPIED,
                 state_history := [(7000000, EMPTY)], last_change_time := Some 7000000,
                 confidence_smoothing := [0]\<rparr>,
               square_space\<lparr>space_id := 2, state := EMPTY, confidence_smoothing := [0]\<rparr>],
            total_spaces = 2 \<rparr>,
          \<lparr> log_file = None,
            state_changes =
              [\<lparr> cr_timestamp = 7000000, cr_space_id = 1, cr_old_state = ''occupied'',
                 cr_new_state = ''empty'', cr_vehicle_class = [], cr_confidence = 0,
                 cr_occupancy_duration = 0 \<rparr>],
            metrics_history =
              [\<lparr> m_timestamp = 7000000, m_empty = 2, m_occupied = 0, m_total = 2,
                 m_occupancy_rate = 0 \<rparr>] \<rparr>,
          0)"
  by code_simp

theorem process_frame_snapshot_witness:
  "metrics_history (log_metrics init_ParkingLogger 0 3 1) =
     [\<lparr> m_timestamp = 0, m_empty = 3, m_occupied = 1, m_total = 4,
        m_occupancy_rate = 1 / 4 \<rparr>]
   \<and> (case process_frame rect_library no_file (\<lambda>n. 0) 0
             (init_ParkingSpaceManager
                [square_space\<lparr>state := OCCUPIED\<rparr>, square_space\<lparr>space_id := 2\<rparr>])
             init_ParkingLogger [] [] [] (Some 7000000) of
         Inl e \<Rightarrow> False
       | Inr (mgr', lg', k') \<Rightarrow>
           count_state UNKNOWN (spaces mgr') = 0
         \<and> length (state_changes lg') = 1
         \<and> m_total (last_snapshot lg') = int (total_spaces mgr')
         \<and> m_occupancy_rate (last_snapshot lg') = get_occupancy_rate mgr')"
proof -
  let ?M0 = "init_ParkingSpaceManager
                [square_space\<lparr>state := OCCUPIED\<rparr>, square_space\<lparr>space_id := 2\<rparr>]"
  have inv: "total_spaces ?M0 = length (spaces ?M0)"
    by (simp add: init_ParkingSpaceManager_def)
  have lm: "metrics_history (log_metrics init_ParkingLogger 0 3 1) =
     [\<lparr> m_timestamp = 0, m_empty = 3, m_occupied = 1, m_total = 4,
        m_occupancy_rate = 1 / 4 \<rparr>]"
    using process_frame_snapshot [where lg = init_ParkingLogger and t = 0 and ec = 3 and oc = 1,
        THEN conjunct1]
    by (simp add: init_ParkingLogger_def)
  note fr = process_frame_snapshot [THEN conjunct2, THEN conjunct2, THEN mp,
      OF conjI [OF two_regions_frame inv]]
  have "count_state UNKNOWN (spaces mgr') = 0
         \<and> length (state_changes lg') = 1
         \<and> m_total (last_snapshot lg') = int (total_spaces mgr')
         \<and> m_occupancy_rate (last_snapshot lg') = get_occupancy_rate mgr'"
    if "process_frame rect_library no_file (\<lambda>n. 0) 0 ?M0 init_ParkingLogger [] [] []
          (Some 7000000) = Inr (mgr', lg', k')" for mgr' lg' k'
  proof -
    from that two_regions_frame have lg': "length (state_changes lg') = 1" by auto
    from process_frame_snapshot [THEN conjunct2, THEN conjunct2, THEN mp,
      OF conjI [OF that inv]] lg'
    show ?thesis by blast
  qed
  then have "case process_frame rect_library no_file (\<lambda>n. 0) 0 ?M0 init_ParkingLogger [] [] []
          (Some 7000000) of
         Inl e \<Rightarrow> False
       | Inr (mgr', lg', k') \<Rightarrow>
           count_state UNKNOWN (spaces mgr') = 0
         \<and> length (state_changes lg') = 1
         \<and> m_total (last_snapshot lg') = int (total_spaces mgr')
         \<and> m_occupancy_rate (last_snapshot lg') = get_occupancy_rate mgr'"
    unfolding two_regions_frame by simp
  with lm show ?thesis by (rule conjI)
qed

subsection \<open>Turnover rate\<close>

lemma in_scope_filter:
  "filter (\<lambda>c. sid = None \<or> Some (cr_space_id c) = sid) changes = in_scope sid changes"
  by (cases sid) (simp_all add: in_scope_def)

lemma window_count_cutoff:
  "length (filter (\<lambda>c. spec_latest_timestamp changes - w * 60000000 \<le> cr_timestamp c) changes)
     = spec_window_count w changes"
proof -
  have "\<And>c. c \<in> set changes \<Longrightarrow> cr_timestamp c \<le> spec_latest_timestamp changes"
    unfolding spec_latest_timestamp_def by (rule Max_ge) auto
  then have "filter (\<lambda>c. spec_latest_timestamp changes - w * 60000000 \<le> cr_timestamp c) changes
      = filter (\<lambda>c. spec_latest_timestamp changes - w * 60000000 \<le> cr_timestamp c
                          \<and> cr_timestamp c \<le> spec_latest_timestamp changes) changes"
    by (intro filter_cong) auto
  then show ?thesis by (simp add: spec_window_count_def)
qed

lemma compute_turnover_rate_unfold:
  "compute_turnover_rate lg sid w =
     (if in_scope sid (state_changes lg) = [] then Inr 0
      else
        (case Timedelta_minutes w of
           Inl e \<Rightarrow> Inl e
         | Inr delta \<Rightarrow>
             (case datetime_sub (spec_latest_timestamp (in_scope sid (state_changes lg))) delta of
                Inl e \<Rightarrow> Inl e
              | Inr cutoff_time \<Rightarrow>
                  Inr (if real_of_int w / 60 > 0
                       then real (length (filter (\<lambda>c. cr_timestamp c \<ge> cutoff_time)
                                    (in_scope sid (state_changes lg)))) / (real_of_int w / 60)
                       else 0))))"
proof (cases "state_changes lg = []")
  case True
  then show ?thesis by (cases sid) (simp_all add: compute_turnover_rate_def in_scope_def)
next
  case False
  then show ?thesis
    unfolding compute_turnover_rate_def in_scope_filter spec_latest_timestamp_def Let_def
    by simp
qed

text \<open>
  Claim C6. \<open>compute_turnover_rate\<close> returns 0.0 when there is no transition event, or
  none of the region asked for. Otherwise, for a window of a positive number of minutes
  (that \<open>pd.Timedelta\<close> can hold, the cutoff being a valid \<open>datetime\<close>), it returns the
  number of events in scope whose timestamp lies within \<open>[latest_timestamp -
  window_minutes, latest_timestamp]\<close>, \<open>latest_timestamp\<close> being the maximum timestamp in
  scope, divided by \<open>window_minutes / 60\<close>. Four events at minutes 5, 20, 40 and 59 and a
  window of 60 minutes give 4.0.
\<close>

theorem compute_turnover_rate_spec:
  "(state_changes lg = [] \<longrightarrow> compute_turnover_rate lg sid w = Inr 0)
   \<and> (in_scope sid (state_changes lg) = [] \<longrightarrow> compute_turnover_rate lg sid w = Inr 0)
   \<and> (in_scope sid (state_changes lg) \<noteq> [] \<and> 0 < w \<and> w \<le> 153722867
        \<and> 0 \<le> spec_latest_timestamp (in_scope sid (state_changes lg)) - w * 60000000
        \<and> spec_latest_timestamp (in_scope sid (state_changes lg)) \<le> datetime_max
      \<longrightarrow> compute_turnover_rate lg sid w =
            Inr (real (spec_window_count w (in_scope sid (state_changes lg)))
                   / (real_of_int w / 60)))"
proof (intro conjI impI)
  assume "state_changes lg = []"
  then have "in_scope sid (state_changes lg) = []" by (cases sid) (simp_all add: in_scope_def)
  then show "compute_turnover_rate lg sid w = Inr 0"
    by (simp add: compute_turnover_rate_unfold)
next
  assume "in_scope sid (state_changes lg) = []"
  then show "compute_turnover_rate lg sid w = Inr 0"
    by (simp add: compute_turnover_rate_unfold)
next
  let ?sc = "in_scope sid (state_changes lg)"
  assume a: "?sc \<noteq> [] \<and> 0 < w \<and> w \<le> 153722867
        \<and> 0 \<le> spec_latest_timestamp ?sc - w * 60000000
        \<and> spec_latest_timestamp ?sc \<le> datetime_max"
  then have td: "Timedelta_minutes w = Inr (w * 60000000)"
    by (simp add: Timedelta_minutes_def)
  from a have ds: "datetime_sub (spec_latest_timestamp ?sc) (w * 60000000)
                     = Inr (spec_latest_timestamp ?sc - w * 60000000)"
    by (simp add: datetime_sub_def)
  from a td ds show "compute_turnover_rate lg sid w =
            Inr (real (spec_window_count w ?sc) / (real_of_int w / 60))"
    by (simp add: compute_turnover_rate_unfold window_count_cutoff)
qed

lemma four_events_scope:
  "in_scope None (state_changes four_events_logger)
     = [change_at 5, change_at 20, change_at 40, change_at 59]"
  by (simp add: in_scope_def four_events_logger_def)

lemma four_events_latest:
  "spec_latest_timestamp [change_at 5, change_at 20, change_at 40, change_at 59]
     = 63839664000000000 + 59 * 60000000"
  by (simp add: spec_latest_timestamp_def change_at_def)

lemma four_events_count:
  "spec_window_count 60 [change_at 5, change_at 20, change_at 40, change_at 59] = 4"
  by (simp add: spec_window_count_def four_events_latest) (simp add: change_at_def)

theorem compute_turnover_rate_spec_witness:
  "compute_turnover_rate four_events_logger None 60 = Inr 4"
  using compute_turnover_rate_spec [of four_events_logger None 60]
  by (simp add: four_events_scope four_events_latest four_events_count datetime_max_def)

text \<open>The guard \<open>hours > 0\<close> of the last line: a window that is not positive gives 0.0.\<close>

lemma compute_turnover_rate_nonpositive_window:
  assumes "compute_turnover_rate lg sid w = Inr r" and "w \<le> 0"
  shows "r = 0"
  using assms
  by (auto simp: compute_turnover_rate_unfold split: if_splits sum.splits)

subsection \<open>Peak hours\<close>

lemma rates_of_hour_Cons:
  "rates_of_hour h (m # ms) =
     (if hour_key (m_timestamp m) = h then m_occupancy_rate m # rates_of_hour h ms
      else rates_of_hour h ms)"
  by (simp add: rates_of_hour_def)

lemma dict_append_absent:
  "k \<notin> set (map fst d) \<Longrightarrow> dict_append (d @ [(k, vs)]) k v = d @ [(k, vs @ [v])]"
  by (induction d) (auto simp: dict_append_def)

lemma dict_append_keys: "map fst (dict_append d k v) = map fst d"
  by (induction d) (auto simp: dict_append_def)

lemma dict_append_map:
  "map (\<lambda>(k', vs). (k', vs @ f k')) (dict_append d k v)
     = map (\<lambda>(k', vs). (k', vs @ (if k' = k then v # f k' else f k'))) d"
  by (induction d) (auto simp: dict_append_def)

lemma group_by_hour_eq:
  "group_by_hour ms d =
     map (\<lambda>(k, vs). (k, vs @ rates_of_hour k ms)) d
     @ map (\<lambda>h. (h, rates_of_hour h ms))
         (filter (\<lambda>h. h \<notin> set (map fst d))
            (first_occurrences (map (\<lambda>m. hour_key (m_timestamp m)) ms)))"
proof (induction ms arbitrary: d)
  case Nil
  show ?case by (simp add: rates_of_hour_def)
next
  case (Cons m ms)
  let ?k = "hour_key (m_timestamp m)"
  let ?fo = "first_occurrences (map (\<lambda>m. hour_key (m_timestamp m)) ms)"
  show ?case
  proof (cases "?k \<in> set (map fst d)")
    case True
    have f: "filter (\<lambda>h. h \<notin> set (map fst d)) (filter (\<lambda>y. y \<noteq> ?k) ?fo)
           = filter (\<lambda>h. h \<notin> set (map fst d)) ?fo"
      using True by (auto simp: filter_filter intro: filter_cong)
    have g: "map (\<lambda>h. (h, rates_of_hour h (m # ms))) (filter (\<lambda>h. h \<notin> set (map fst d)) ?fo)
           = map (\<lambda>h. (h, rates_of_hour h ms)) (filter (\<lambda>h. h \<notin> set (map fst d)) ?fo)"
      using True by (auto simp: rates_of_hour_Cons)
    have "group_by_hour (m # ms) d = group_by_hour ms (dict_append d ?k (m_occupancy_rate m))"
      using True by (simp add: Let_def)
    also have "\<dots> = map (\<lambda>(k, vs). (k, vs @ rates_of_hour k ms))
                        (dict_append d ?k (m_occupancy_rate m))
               @ map (\<lambda>h. (h, rates_of_hour h ms)) (filter (\<lambda>h. h \<notin> set (map fst d)) ?fo)"
      by (simp add: Cons.IH dict_append_keys)
    also have "map (\<lambda>(k, vs). (k, vs @ rates_of_hour k ms))
                        (dict_append d ?k (m_occupancy_rate m))
             = map (\<lambda>(k, vs). (k, vs @ rates_of_hour k (m # ms))) d"
      unfolding dict_append_map by (rule map_cong) (auto simp: rates_of_hour_Cons)
    finally show ?thesis using True f g by simp
  next
    case False
    let ?d1 = "d @ [(?k, [m_occupancy_rate m])]"
    have f: "filter (\<lambda>h. h \<notin> set (map fst ?d1)) ?fo
           = filter (\<lambda>h. h \<notin> set (map fst d)) (filter (\<lambda>y. y \<noteq> ?k) ?fo)"
      by (auto simp: filter_filter intro: filter_cong)
    have g: "map (\<lambda>h. (h, rates_of_hour h (m # ms)))
               (filter (\<lambda>h. h \<notin> set (map fst d)) (filter (\<lambda>y. y \<noteq> ?k) ?fo))
           = map (\<lambda>h. (h, rates_of_hour h ms))
               (filter (\<lambda>h. h \<notin> set (map fst d)) (filter (\<lambda>y. y \<noteq> ?k) ?fo))"
      by (auto simp: rates_of_hour_Cons)
    have h: "map (\<lambda>(k, vs). (k, vs @ rates_of_hour k ms)) d
           = map (\<lambda>(k, vs). (k, vs @ rates_of_hour k (m # ms))) d"
      using False by (intro map_cong) (force simp: rates_of_hour_Cons)+
    have "group_by_hour (m # ms) d = group_by_hour ms ?d1"
      using False dict_append_absent [OF False, of "[]" "m_occupancy_rate m"]
      by (simp add: Let_def)
    also have "\<dots> = map (\<lambda>(k, vs). (k, vs @ rates_of_hour k ms)) ?d1
               @ map (\<lambda>h. (h, rates_of_hour h ms)) (filter (\<lambda>h. h \<notin> set (map fst ?d1)) ?fo)"
      by (rule Cons.IH)
    finally show ?thesis using False f g h by (simp add: rates_of_hour_Cons)
  qed
qed

lemma hourly_avg_groups:
  "map (\<lambda>(hour, rates). (hour, mean rates)) (group_by_hour ms []) = spec_hour_groups ms"
  by (simp add: group_by_hour_eq spec_hour_groups_def comp_def)


lemma sorted_by_rate_reverse_desc:
  "sorted_wrt (\<lambda>a b. snd b \<le> snd a) (sorted_by_rate_reverse items)"
proof -
  have "sorted (map snd (sort_key snd (rev items)))" by (rule sorted_sort_key)
  then have "sorted_wrt (\<lambda>a b. snd a \<le> snd b) (sort_key snd (rev items))"
    by (simp add: sorted_map)
  then show ?thesis
    unfolding sorted_by_rate_reverse_def by (simp add: sorted_wrt_rev)
qed

lemma sorted_by_rate_reverse_set:
  "set (sorted_by_rate_reverse items) = set items"
  "length (sorted_by_rate_reverse items) = length items"
  by (simp_all add: sorted_by_rate_reverse_def)

lemma sorted_wrt_take_drop:
  "sorted_wrt P xs \<Longrightarrow> a \<in> set (take n xs) \<Longrightarrow> b \<in> set (drop n xs) \<Longrightarrow> P a b"
  using sorted_wrt_append [of P "take n xs" "drop n xs"] by simp

lemma get_peak_hours_unfold:
  "get_peak_hours fmt lg hw =
     map (peak_entry fmt) (take 10 (sorted_by_rate_reverse (spec_hour_groups (metrics_history lg))))"
proof (cases "metrics_history lg = []")
  case True
  then show ?thesis
    by (simp add: get_peak_hours_def spec_hour_groups_def sorted_by_rate_reverse_def)
next
  case False
  have "(\<lambda>(hour, avg_rate).
           \<lparr> ph_timestamp = fmt hour, ph_average_occupancy_rate = avg_rate \<rparr>) = peak_entry fmt"
    by (auto simp: peak_entry_def)
  with False show ?thesis
    by (simp add: get_peak_hours_def Let_def hourly_avg_groups)
qed

text \<open>
  Claim C7. \<open>get_peak_hours\<close> groups the recorded snapshots by their timestamp truncated
  to the top of the hour and averages \<open>occupancy_rate\<close> within each group; it returns at
  most 10 of these groups, the sort only reordering them, in descending order of the
  average: a returned group with a strictly higher average precedes every returned group
  with a lower one, and no group left out has a higher average than a returned one.
\<close>

theorem get_peak_hours_spec:
  "get_peak_hours fmt lg hw =
     map (peak_entry fmt) (take 10 (sorted_by_rate_reverse (spec_hour_groups (metrics_history lg))))
   \<and> length (get_peak_hours fmt lg hw) \<le> 10
   \<and> set (sorted_by_rate_reverse (spec_hour_groups (metrics_history lg)))
       = set (spec_hour_groups (metrics_history lg))
   \<and> (\<forall>i j. i < length (get_peak_hours fmt lg hw) \<and> j < length (get_peak_hours fmt lg hw)
         \<and> ph_average_occupancy_rate (get_peak_hours fmt lg hw ! j)
             < ph_average_occupancy_rate (get_peak_hours fmt lg hw ! i)
        \<longrightarrow> i < j)
   \<and> (\<forall>g \<in> set (drop 10 (sorted_by_rate_reverse (spec_hour_groups (metrics_history lg)))).
        \<forall>p \<in> set (get_peak_hours fmt lg hw). snd g \<le> ph_average_occupancy_rate p)"
proof -
  let ?gs = "sorted_by_rate_reverse (spec_hour_groups (metrics_history lg))"
  let ?res = "get_peak_hours fmt lg hw"
  have res: "?res = map (peak_entry fmt) (take 10 ?gs)" by (rule get_peak_hours_unfold)
  have desc: "sorted_wrt (\<lambda>a b. snd b \<le> snd a) ?gs" by (rule sorted_by_rate_reverse_desc)
  then have "sorted_wrt (\<lambda>a b. snd b \<le> snd a) (take 10 ?gs)" by (rule sorted_wrt_take)
  then have sres: "sorted_wrt (\<lambda>p q. ph_average_occupancy_rate q \<le> ph_average_occupancy_rate p) ?res"
    unfolding res by (simp add: sorted_wrt_map peak_entry_def)
  have order: "\<forall>i j. i < length ?res \<and> j < length ?res
         \<and> ph_average_occupancy_rate (?res ! j) < ph_average_occupancy_rate (?res ! i)
        \<longrightarrow> i < j"
  proof (intro allI impI, elim conjE)
    fix i j
    assume i: "i < length ?res" and j: "j < length ?res"
      and lt: "ph_average_occupancy_rate (?res ! j) < ph_average_occupancy_rate (?res ! i)"
    show "i < j"
    proof (rule ccontr)
      assume "\<not> i < j"
      then have "j < i \<or> j = i" by auto
      then show False
      proof
        assume "j < i"
        from sorted_wrt_nth_less [OF sres this i] lt show False by simp
      next
        assume "j = i"
        with lt show False by simp
      qed
    qed
  qed
  have top: "\<forall>g \<in> set (drop 10 ?gs). \<forall>p \<in> set ?res. snd g \<le> ph_average_occupancy_rate p"
  proof (intro ballI)
    fix g p assume g: "g \<in> set (drop 10 ?gs)" and p: "p \<in> set ?res"
    from p obtain a where a: "a \<in> set (take 10 ?gs)" and pa: "p = peak_entry fmt a"
      unfolding res by auto
    from sorted_wrt_take_drop [OF desc a g] show "snd g \<le> ph_average_occupancy_rate p"
      by (simp add: pa peak_entry_def)
  qed
  have len: "length ?res \<le> 10" unfolding res by simp
  from res len sorted_by_rate_reverse_set(1) order top show ?thesis by blast
qed

lemma three_hours_sorted:
  "map (peak_entry iso_hours)
     (take 10 (sorted_by_rate_reverse (spec_hour_groups (metrics_history three_hours_logger))))
   = [\<lparr> ph_timestamp = ''2024-01-01T00:00:00'', ph_average_occupancy_rate = 9 / 10 \<rparr>,
      \<lparr> ph_timestamp = ''2024-01-01T02:00:00'', ph_average_occupancy_rate = 9 / 10 \<rparr>,
      \<lparr> ph_timestamp = ''2024-01-01T01:00:00'', ph_average_occupancy_rate = 1 / 10 \<rparr>]"
  by code_simp

theorem get_peak_hours_spec_witness:
  "get_peak_hours iso_hours three_hours_logger 1
   = [\<lparr> ph_timestamp = ''2024-01-01T00:00:00'', ph_average_occupancy_rate = 9 / 10 \<rparr>,
      \<lparr> ph_timestamp = ''2024-01-01T02:00:00'', ph_average_occupancy_rate = 9 / 10 \<rparr>,
      \<lparr> ph_timestamp = ''2024-01-01T01:00:00'', ph_average_occupancy_rate = 1 / 10 \<rparr>]"
  using get_peak_hours_spec [of iso_hours three_hours_logger 1]
  unfolding three_hours_sorted by (rule conjunct1)

subsection \<open>Loading the configuration\<close>

text \<open>
  Claim C1 requires loading to fail with a configuration error whenever some region's
  polygon has fewer than 3 points. The loader has no such check. On the file
  \<open>two_points.json\<close>, whose only region has a polygon of 2 points, \<open>load_spaces\<close> returns:
  the region is constructed with its 2 points and the default threshold 0.2, whatever
  the library does outside the \<open>int32\<close> range and whatever \<open>int\<close> makes of strings.
\<close>

theorem load_spaces_two_points_loaded:
  "load_spaces lib int_of_str example_files ''two_points.json''
     = Inr [init_ParkingSpace (JInt 1) [(0, 0), (10, 10)] (JFloat (2 / 10))]"
  by (simp add: load_spaces_def example_files_def two_point_config_def load_space_def
        convert_polygon_def convert_point_def new_ParkingSpace_def np_int32_def in_int32_def)

text \<open>The number of points plays no role for any region: a region object with an \<open>id\<close>
  and a polygon of integer pairs inside the \<open>int32\<close> range is constructed with these
  points, however few they are.\<close>

lemma convert_points_pairs:
  "convert_points int_of_str (map (\<lambda>(x, y). JArr [JInt x, JInt y]) pts) = Inr pts"
  by (induction pts) (auto simp: convert_point_def)

lemma load_space_any_length:
  assumes "list_all (\<lambda>(x, y). in_int32 x \<and> in_int32 y) pts"
  shows "load_space lib int_of_str default_ratio
           (JObj [(''id'', sid), (''polygon'', JArr (map (\<lambda>(x, y). JArr [JInt x, JInt y]) pts))])
         = Inr (init_ParkingSpace sid pts default_ratio)"
  by (simp add: load_space_def convert_polygon_def convert_points_pairs new_ParkingSpace_def
        np_array_int32_in_range [OF assms])

end
